theory Spec2Isabelle
  imports Main "HOL-Library.Sublist" "HOL-Library.List_Lexorder" "HOL-Library.Char_ord"
begin

section \<open>The build script of the video index, as a function on files\<close>

text \<open>
  \<^verbatim>\<open>build.py\<close> runs once from top to bottom: it loads a JSON array of video records,
  compacts every record, counts distinct topics and sutta ids, fills the placeholders of
  a template and writes \<^verbatim>\<open>index.html\<close>. The model follows the script line by line.

  Text is modelled as the UTF-8 bytes of the Python string: the files are read and
  written as UTF-8, byte order on UTF-8 is code point order, and replacing a substring of
  well-formed UTF-8 is the same on bytes and on code points. Where Python counts or
  iterates code points (\<^verbatim>\<open>len\<close>, \<^verbatim>\<open>for c in s\<close>) the model groups the bytes again.
  Numbers are the integers: a JSON number with a fraction or an exponent is a Python
  float and is not represented. What the script takes from the interpreter and its
  library, and what differs between installations, is a parameter of the model.
\<close>

subsection \<open>JSON values and Python exceptions\<close>

text \<open>
  What \<^verbatim>\<open>json.load\<close> returns. An object is the list of its members in insertion
  order; a Python dict has every key once.
\<close>

datatype json =
    JNull
  | JBool bool
  | JInt int
  | JStr string
  | JArr "json list"
  | JObj "(string \<times> json) list"

text \<open>The exception classes the script can raise; \<open>KeyError\<close> carries the missing key and
  \<open>NameError\<close> the unbound name, as the Python exceptions do.\<close>

datatype py_error =
    KeyError string
  | TypeError
  | AttributeError
  | ValueError
  | NameError string

fun and_then :: "'e + 'a \<Rightarrow> ('a \<Rightarrow> 'e + 'b) \<Rightarrow> 'e + 'b" where
  "and_then (Inl e) f = Inl e"
| "and_then (Inr x) f = f x"

fun map_err :: "('a \<Rightarrow> 'e + 'b) \<Rightarrow> 'a list \<Rightarrow> 'e + 'b list" where
  "map_err f [] = Inr []"
| "map_err f (x # xs) = and_then (f x) (\<lambda>y. and_then (map_err f xs) (\<lambda>ys. Inr (y # ys)))"

subsection \<open>Python's operations on the loaded values\<close>

fun is_obj :: "json \<Rightarrow> bool" where
  "is_obj (JObj kvs) = True"
| "is_obj _ = False"

text \<open>\<^verbatim>\<open>bool(v)\<close>: \<^verbatim>\<open>None\<close>, \<^verbatim>\<open>False\<close>, \<^verbatim>\<open>0\<close> and the empty string, list and dict are false.\<close>

fun truthy :: "json \<Rightarrow> bool" where
  "truthy JNull = False"
| "truthy (JBool b) = b"
| "truthy (JInt i) = (i \<noteq> 0)"
| "truthy (JStr s) = (s \<noteq> [])"
| "truthy (JArr xs) = (xs \<noteq> [])"
| "truthy (JObj kvs) = (kvs \<noteq> [])"

text \<open>\<^verbatim>\<open>v[k]\<close> with a string key: a dict looks the key up and raises \<^verbatim>\<open>KeyError(k)\<close> when
  it is absent; a list or a str wants an integer index, and the other values are not
  subscriptable (both \<^verbatim>\<open>TypeError\<close>).\<close>

fun subscript :: "json \<Rightarrow> string \<Rightarrow> py_error + json" where
  "subscript (JObj kvs) k = (case map_of kvs k of None \<Rightarrow> Inl (KeyError k) | Some x \<Rightarrow> Inr x)"
| "subscript _ k = Inl TypeError"

text \<open>\<^verbatim>\<open>v.get(k, d)\<close>: only a dict has the method.\<close>

fun py_get :: "json \<Rightarrow> string \<Rightarrow> json \<Rightarrow> py_error + json" where
  "py_get (JObj kvs) k d = (case map_of kvs k of None \<Rightarrow> Inr d | Some x \<Rightarrow> Inr x)"
| "py_get _ k d = Inl AttributeError"

definition is_cont :: "char \<Rightarrow> bool" where
  "is_cont c = (128 \<le> (of_char c :: nat) \<and> (of_char c :: nat) < 192)"

text \<open>The code points of a string, each with its UTF-8 continuation bytes.\<close>

function code_points :: "string \<Rightarrow> string list" where
  "code_points [] = []"
| "code_points (c # cs) = (c # takeWhile is_cont cs) # code_points (dropWhile is_cont cs)"
  by pat_completeness auto
termination
  by (relation "measure length") (auto simp: less_Suc_eq_le length_dropWhile_le)

definition py_str_len :: "string \<Rightarrow> nat" where
  "py_str_len s = length (filter (\<lambda>c. \<not> is_cont c) s)"

text \<open>\<^verbatim>\<open>for x in v\<close>: a list gives its elements, a dict its keys, a str its characters.\<close>

fun py_iter :: "json \<Rightarrow> py_error + json list" where
  "py_iter (JArr xs) = Inr xs"
| "py_iter (JObj kvs) = Inr (map (\<lambda>kv. JStr (fst kv)) kvs)"
| "py_iter (JStr s) = Inr (map JStr (code_points s))"
| "py_iter _ = Inl TypeError"

fun py_len :: "json \<Rightarrow> py_error + nat" where
  "py_len (JArr xs) = Inr (length xs)"
| "py_len (JObj kvs) = Inr (length kvs)"
| "py_len (JStr s) = Inr (py_str_len s)"
| "py_len _ = Inl TypeError"

text \<open>The members of a Python set: hashable values up to Python's equality, in which
  \<^verbatim>\<open>True == 1\<close> and \<^verbatim>\<open>False == 0\<close>. Lists and dicts are unhashable.\<close>

datatype hkey = HNone | HInt int | HStr string

fun hash_key :: "json \<Rightarrow> py_error + hkey" where
  "hash_key JNull = Inr HNone"
| "hash_key (JBool b) = Inr (HInt (if b then 1 else 0))"
| "hash_key (JInt i) = Inr (HInt i)"
| "hash_key (JStr s) = Inr (HStr s)"
| "hash_key _ = Inl TypeError"

subsection \<open>Text: \<^verbatim>\<open>str\<close>, \<^verbatim>\<open>str.replace\<close> and \<^verbatim>\<open>json.dumps\<close>\<close>

definition digit_char :: "nat \<Rightarrow> char" where
  "digit_char d = ''0123456789abcdef'' ! d"

function str_of_nat :: "nat \<Rightarrow> string" where
  "str_of_nat n =
     (if n < 10 then [digit_char n] else str_of_nat (n div 10) @ [digit_char (n mod 10)])"
  by pat_completeness auto
termination
  by (relation "measure id") auto

declare str_of_nat.simps [simp del]

definition str_of_int :: "int \<Rightarrow> string" where
  "str_of_int i = (if i < 0 then ''-'' @ str_of_nat (nat (- i)) else str_of_nat (nat i))"

text \<open>\<^verbatim>\<open>s.replace(old, new)\<close>: every occurrence of \<open>old\<close>, found from the left and not
  overlapping; an empty \<open>old\<close> matches before every character and at the end.\<close>

function replace :: "string \<Rightarrow> string \<Rightarrow> string \<Rightarrow> string" where
  "replace [] old new = (if old = [] then new else [])"
| "replace (c # cs) old new =
     (if old = [] then new @ c # replace cs old new
      else if prefix old (c # cs) then new @ replace (drop (length old) (c # cs)) old new
      else c # replace cs old new)"
  by pat_completeness auto
termination
  by (relation "measure (\<lambda>(s, old, new). length s)") auto

declare replace.simps [simp del]

text \<open>The string escapes of \<^verbatim>\<open>json.dumps(..., ensure_ascii=False)\<close>: the quote, the
  backslash and the control characters below 0x20; everything else is written as it is.\<close>

definition escape_char :: "char \<Rightarrow> string" where
  "escape_char c =
     (if c = CHR 0x22 then [CHR 0x5C, CHR 0x22]
      else if c = CHR 0x5C then [CHR 0x5C, CHR 0x5C]
      else if c = CHR 0x0A then [CHR 0x5C, CHR ''n'']
      else if c = CHR 0x0D then [CHR 0x5C, CHR ''r'']
      else if c = CHR 0x09 then [CHR 0x5C, CHR ''t'']
      else if c = CHR 0x08 then [CHR 0x5C, CHR ''b'']
      else if c = CHR 0x0C then [CHR 0x5C, CHR ''f'']
      else if (of_char c :: nat) < 32
        then [CHR 0x5C, CHR ''u'', CHR ''0'', CHR ''0'',
              digit_char (of_char c div 16), digit_char (of_char c mod 16)]
      else [c])"

definition encode_str :: "string \<Rightarrow> string" where
  "encode_str s = [CHR 0x22] @ concat (map escape_char s) @ [CHR 0x22]"

fun join :: "string \<Rightarrow> string list \<Rightarrow> string" where
  "join sep [] = []"
| "join sep [x] = x"
| "join sep (x # y # ys) = x @ sep @ join sep (y # ys)"

text \<open>\<^verbatim>\<open>json.dumps(v, separators=(',', ':'), ensure_ascii=False)\<close>.\<close>

fun dumps :: "json \<Rightarrow> string" where
  "dumps JNull = ''null''"
| "dumps (JBool b) = (if b then ''true'' else ''false'')"
| "dumps (JInt i) = str_of_int i"
| "dumps (JStr s) = encode_str s"
| "dumps (JArr xs) = ''['' @ join '','' (map dumps xs) @ '']''"
| "dumps (JObj kvs) =
     ''{'' @ join '','' (map (\<lambda>(k, v). encode_str k @ '':'' @ dumps v) kvs) @ ''}''"

subsection \<open>Step 2: compacting the records\<close>

text \<open>The three comprehensions of the record literal, one entry each. A dict display
  evaluates its values from left to right, so a subscript fails before a later
  \<^verbatim>\<open>get\<close> is tried.\<close>

definition compact_sutta_ref :: "json \<Rightarrow> py_error + json" where
  "compact_sutta_ref s =
     and_then (subscript s ''sutta_id'') (\<lambda>i.
     and_then (py_get s ''url'' (JStr [])) (\<lambda>u.
     and_then (py_get s ''label'' (JStr [])) (\<lambda>l.
       Inr (JObj [(''id'', i), (''url'', u), (''l'', if truthy l then l else JStr [])]))))"

definition compact_other_ref :: "json \<Rightarrow> py_error + json" where
  "compact_other_ref r =
     and_then (py_get r ''type'' (JStr [])) (\<lambda>t.
     and_then (py_get r ''label'' (JStr [])) (\<lambda>l.
     and_then (py_get r ''url'' (JStr [])) (\<lambda>u.
       Inr (JObj [(''type'', t), (''label'', l), (''url'', u)]))))"

definition compact_related :: "json \<Rightarrow> py_error + json" where
  "compact_related r =
     and_then (subscript r ''title'') (\<lambda>t.
     and_then (subscript r ''url'') (\<lambda>u.
       Inr (JObj [(''t'', t), (''u'', u)])))"

definition compact_record :: "json \<Rightarrow> py_error + json" where
  "compact_record v =
     and_then (subscript v ''title'') (\<lambda>t.
     and_then (py_get v ''date'' (JStr [])) (\<lambda>d.
     and_then (subscript v ''youtube_url'') (\<lambda>u.
     and_then (py_get v ''summary'' (JStr [])) (\<lambda>s.
     and_then (py_get v ''topics'' (JArr [])) (\<lambda>tp.
     and_then (py_get v ''sutta_refs'' (JArr [])) (\<lambda>srs.
     and_then (py_iter srs) (\<lambda>ss.
     and_then (map_err compact_sutta_ref ss) (\<lambda>sr.
     and_then (py_get v ''other_refs'' (JArr [])) (\<lambda>ors.
     and_then (py_iter ors) (\<lambda>os.
     and_then (map_err compact_other_ref os) (\<lambda>or.
     and_then (py_get v ''related_videos'' (JArr [])) (\<lambda>rvs.
     and_then (py_iter rvs) (\<lambda>rs.
     and_then (map_err compact_related rs) (\<lambda>rv.
       Inr (JObj [(''t'', t), (''d'', d), (''u'', u), (''s'', s), (''tp'', tp),
                  (''sr'', JArr sr), (''or'', JArr or), (''rv'', JArr rv)])))))))))))))))"

definition compact :: "json \<Rightarrow> py_error + json list" where
  "compact data = and_then (py_iter data) (map_err compact_record)"

subsection \<open>Step 3: the two sets\<close>

fun stats_loop :: "json list \<Rightarrow> hkey set \<times> hkey set \<Rightarrow> py_error + hkey set \<times> hkey set" where
  "stats_loop [] acc = Inr acc"
| "stats_loop (v # vs) (all_topics, all_suttas) =
     and_then (py_get v ''topics'' (JArr [])) (\<lambda>tp.
     and_then (py_iter tp) (\<lambda>ts.
     and_then (map_err hash_key ts) (\<lambda>tks.
     and_then (py_get v ''sutta_refs'' (JArr [])) (\<lambda>srs.
     and_then (py_iter srs) (\<lambda>ss.
     and_then (map_err (\<lambda>s. and_then (subscript s ''sutta_id'') hash_key) ss) (\<lambda>sks.
       stats_loop vs (all_topics \<union> set tks, all_suttas \<union> set sks)))))))"

definition count_stats :: "json \<Rightarrow> py_error + hkey set \<times> hkey set" where
  "count_stats data = and_then (py_iter data) (\<lambda>vs. stats_loop vs ({}, {}))"

subsection \<open>The interpreter and its library\<close>

text \<open>
  Three things the script uses are not in its source and are left open:
  \<^item> \<open>json_load\<close>, the parser \<^verbatim>\<open>json.load\<close>: from the text of the data file to the loaded
    value, or to the message of a \<^verbatim>\<open>JSONDecodeError\<close>;
  \<^item> \<open>unicode_digit\<close>, the decimal digits outside ASCII with their values from 0 to 9
    (category Nd of the interpreter's Unicode database), each given as the UTF-8 bytes
    of the character: the \<^verbatim>\<open>\d\<close> of a regular expression matches them and \<^verbatim>\<open>int\<close>
    converts them;
  \<^item> \<open>pads_year\<close>, whether \<^verbatim>\<open>strftime('%Y')\<close> writes a year below 1000 with zeros in
    front, which the C library decides.
\<close>

record stdlib =
  json_load :: "string \<Rightarrow> string + json"
  unicode_digit :: "string \<Rightarrow> nat option"
  pads_year :: bool

subsection \<open>The date range\<close>

text \<open>
  \<^verbatim>\<open>datetime.strptime(s, '%Y-%m-%d')\<close> matches the regular expression
  \<^verbatim>\<open>(\d\d\d\d)-(1[0-2]|0[1-9]|[1-9])-(3[0-1]|[1-2]\d|0[1-9]|[1-9]| [1-9])\<close>, wants the
  whole string consumed and then builds a date, which checks the year and the day of
  the month; every failure is a \<^verbatim>\<open>ValueError\<close>. In each group the two-character
  alternatives come first and the month is followed by a literal hyphen, so the first
  alternative that matches is the only one that can lead to a match. The ranges in
  brackets are ASCII; \<^verbatim>\<open>\d\<close> is any decimal digit, read by \<open>take_digit\<close> as one
  character with its continuation bytes.
\<close>

definition is_digit :: "char \<Rightarrow> bool" where
  "is_digit c = (c \<in> set ''0123456789'')"

definition nonzero_digit :: "char \<Rightarrow> bool" where
  "nonzero_digit c = (c \<in> set ''123456789'')"

definition digit_val :: "char \<Rightarrow> nat" where
  "digit_val c = of_char c - 48"

fun take_digit :: "stdlib \<Rightarrow> string \<Rightarrow> (nat \<times> string) option" where
  "take_digit lib [] = None"
| "take_digit lib (c # cs) =
     (if takeWhile is_cont cs = [] then
        (if is_digit c then Some (digit_val c, cs) else None)
      else
        (case unicode_digit lib (c # takeWhile is_cont cs) of
           None \<Rightarrow> None
         | Some d \<Rightarrow> Some (d, dropWhile is_cont cs)))"

definition take_year :: "stdlib \<Rightarrow> string \<Rightarrow> (nat \<times> string) option" where
  "take_year lib s =
     (case take_digit lib s of None \<Rightarrow> None | Some (a, s1) \<Rightarrow>
     (case take_digit lib s1 of None \<Rightarrow> None | Some (b, s2) \<Rightarrow>
     (case take_digit lib s2 of None \<Rightarrow> None | Some (c, s3) \<Rightarrow>
     (case take_digit lib s3 of None \<Rightarrow> None | Some (d, s4) \<Rightarrow>
        Some (1000 * a + 100 * b + 10 * c + d, s4)))))"

fun match_month :: "string \<Rightarrow> (nat \<times> string) option" where
  "match_month (a # b # r) =
     (if a = CHR ''1'' \<and> b \<in> set ''012'' then Some (10 + digit_val b, r)
      else if a = CHR ''0'' \<and> nonzero_digit b then Some (digit_val b, r)
      else if nonzero_digit a then Some (digit_val a, b # r)
      else None)"
| "match_month [a] = (if nonzero_digit a then Some (digit_val a, []) else None)"
| "match_month [] = None"

fun match_day :: "stdlib \<Rightarrow> string \<Rightarrow> (nat \<times> string) option" where
  "match_day lib (a # b # r) =
     (if a = CHR ''3'' \<and> b \<in> set ''01'' then Some (30 + digit_val b, r)
      else
        (case (if a \<in> set ''12'' then take_digit lib (b # r) else None) of
           Some (d, r') \<Rightarrow> Some (10 * digit_val a + d, r')
         | None \<Rightarrow>
             (if a = CHR ''0'' \<and> nonzero_digit b then Some (digit_val b, r)
              else if nonzero_digit a then Some (digit_val a, b # r)
              else if a = CHR '' '' \<and> nonzero_digit b then Some (digit_val b, r)
              else None)))"
| "match_day lib [a] = (if nonzero_digit a then Some (digit_val a, []) else None)"
| "match_day lib [] = None"

definition is_leap :: "nat \<Rightarrow> bool" where
  "is_leap y = (y mod 4 = 0 \<and> (y mod 100 \<noteq> 0 \<or> y mod 400 = 0))"

definition days_in_month :: "nat \<Rightarrow> nat \<Rightarrow> nat" where
  "days_in_month y m =
     (if m = 2 then (if is_leap y then 29 else 28)
      else if m \<in> {4, 6, 9, 11} then 30 else 31)"

text \<open>A parsed date: year, month, day.\<close>

type_synonym date = "nat \<times> nat \<times> nat"

definition strptime :: "stdlib \<Rightarrow> string \<Rightarrow> py_error + date" where
  "strptime lib s =
     (case take_year lib s of
        Some (y, h # r) \<Rightarrow>
          (if h = CHR ''-'' then
             (case match_month r of
                Some (m, h' # r') \<Rightarrow>
                  (if h' = CHR ''-'' then
                     (case match_day lib r' of
                        Some (d, []) \<Rightarrow>
                          (if 1 \<le> y \<and> d \<le> days_in_month y m then Inr (y, m, d)
                           else Inl ValueError)
                      | _ \<Rightarrow> Inl ValueError)
                   else Inl ValueError)
              | _ \<Rightarrow> Inl ValueError)
           else Inl ValueError)
      | _ \<Rightarrow> Inl ValueError)"

definition month_name :: "nat \<Rightarrow> string" where
  "month_name m =
     [''January'', ''February'', ''March'', ''April'', ''May'', ''June'', ''July'',
      ''August'', ''September'', ''October'', ''November'', ''December''] ! (m - 1)"

text \<open>\<^verbatim>\<open>strftime('%B %Y')\<close> in the C locale: the name of the month and the year. A year
  from 1000 on is its four digits; below 1000 the library decides about the zeros.\<close>

definition strftime :: "stdlib \<Rightarrow> date \<Rightarrow> string" where
  "strftime lib dt =
     (case dt of (y, m, d) \<Rightarrow>
        month_name m @ '' '' @
        (if pads_year lib then
           (if y < 10 then ''000'' else if y < 100 then ''00'' else if y < 1000 then ''0''
            else [])
         else [])
        @ str_of_nat y)"

text \<open>\<^verbatim>\<open>[v['date'] for v in data if v.get('date')]\<close>\<close>

fun date_values :: "json list \<Rightarrow> py_error + json list" where
  "date_values [] = Inr []"
| "date_values (v # vs) =
     and_then (py_get v ''date'' JNull) (\<lambda>g.
       if truthy g then
         and_then (subscript v ''date'') (\<lambda>d.
         and_then (date_values vs) (\<lambda>ds. Inr (d # ds)))
       else date_values vs)"

fun is_str :: "json \<Rightarrow> bool" where
  "is_str (JStr s) = True"
| "is_str _ = False"

fun str_of :: "json \<Rightarrow> string" where
  "str_of (JStr s) = s"
| "str_of _ = []"

text \<open>
  Lines 95 to 99. \<^verbatim>\<open>sorted\<close> on strings is the lexicographic order. When some value is
  not a string, either \<^verbatim>\<open>sorted\<close> meets a comparison Python does not support or
  \<^verbatim>\<open>strptime\<close> is handed a value that is not a str; both raise \<^verbatim>\<open>TypeError\<close>.
  The result is \<open>None\<close> when the list is empty and the names \<^verbatim>\<open>earliest\<close> and
  \<^verbatim>\<open>latest\<close> stay unbound.
\<close>

definition find_date_range :: "stdlib \<Rightarrow> json \<Rightarrow> py_error + (string \<times> string) option" where
  "find_date_range lib data =
     and_then (py_iter data) (\<lambda>vs.
     and_then (date_values vs) (\<lambda>ds.
       if ds = [] then Inr None
       else if list_all is_str ds then
         (let dates = sort (map str_of ds) in
          and_then (strptime lib (hd dates)) (\<lambda>e.
          and_then (strptime lib (last dates)) (\<lambda>l.
            Inr (Some (strftime lib e, strftime lib l)))))
       else Inl TypeError))"

subsection \<open>The script\<close>

text \<open>What a run prints, one constructor for each message of the script. The lines
  that are always printed together are one message: \<open>DataNotFound\<close> is lines 35 and 36,
  \<open>DataFormatError\<close> lines 39 to 47 with the text of the exception, \<open>Done\<close> lines 112
  to 114. The numbers are the ones the script formats into the line.\<close>

datatype line =
    Building
  | Blank
  | Loaded nat
  | DataNotFound
  | DataFormatError string
  | Compacted nat
  | TemplateLoaded
  | TemplateNotFound
  | Created nat
  | Stats nat nat nat
  | DateRange string string
  | Done

text \<open>How the process ends: \<^verbatim>\<open>sys.exit(n)\<close> or falling off the end (\<open>Exit 0\<close>), or an
  exception nobody catches, which the interpreter reports with exit code 1.\<close>

datatype status = Exit nat | Uncaught py_error

fun exit_code :: "status \<Rightarrow> nat" where
  "exit_code (Exit n) = n"
| "exit_code (Uncaught e) = 1"

type_synonym fs = "string \<rightharpoonup> string"

record run =
  files :: fs
  console :: "line list"
  status :: status

definition data_path :: string where "data_path = ''dougs_dharma_index.json''"
definition template_path :: string where "template_path = ''template.html''"
definition output_path :: string where "output_path = ''index.html''"

definition dash :: string where
  "dash = [CHR '' '', CHR 0xE2, CHR 0x80, CHR 0x93, CHR '' '']"

text \<open>
  The whole script: \<open>lib\<close> is the interpreter's library and \<open>fs\<close> the directory of the
  script.
\<close>

definition build :: "stdlib \<Rightarrow> fs \<Rightarrow> run" where
  "build lib fs =
    (let out0 = [Building, Blank] in
     case fs data_path of
       None \<Rightarrow> \<lparr>files = fs, console = out0 @ [DataNotFound], status = Exit 1\<rparr>
     | Some text \<Rightarrow>
     (case json_load lib text of
       Inl msg \<Rightarrow> \<lparr>files = fs, console = out0 @ [DataFormatError msg], status = Exit 1\<rparr>
     | Inr data \<Rightarrow>
     (case py_len data of
       Inl e \<Rightarrow> \<lparr>files = fs, console = out0, status = Uncaught e\<rparr>
     | Inr n \<Rightarrow>
     (let out1 = out0 @ [Loaded n] in
      case compact data of
       Inl e \<Rightarrow> \<lparr>files = fs, console = out1, status = Uncaught e\<rparr>
     | Inr c \<Rightarrow>
     (let compact_json = dumps (JArr c);
          out2 = out1 @ [Compacted (py_str_len compact_json div 1024)] in
      case count_stats data of
       Inl e \<Rightarrow> \<lparr>files = fs, console = out2, status = Uncaught e\<rparr>
     | Inr (all_topics, all_suttas) \<Rightarrow>
     (case fs template_path of
       None \<Rightarrow> \<lparr>files = fs, console = out2 @ [TemplateNotFound], status = Exit 1\<rparr>
     | Some template \<Rightarrow>
     (let out3 = out2 @ [TemplateLoaded];
          html1 = replace template ''PLACEHOLDER_DATA'' compact_json;
          html2 = replace html1 ''PLACEHOLDER_VIDEO_COUNT'' (str_of_nat n);
          html3 = replace html2 ''PLACEHOLDER_TOPIC_COUNT'' (str_of_nat (card all_topics));
          html4 = replace html3 ''PLACEHOLDER_SUTTA_COUNT'' (str_of_nat (card all_suttas));
          report = [Blank, Stats n (card all_topics) (card all_suttas)] in
      case find_date_range lib data of
       Inl e \<Rightarrow> \<lparr>files = fs, console = out3, status = Uncaught e\<rparr>
     | Inr None \<Rightarrow>
         \<lparr>files = fs(output_path \<mapsto> html4),
          console = out3 @ [Created (py_str_len html4 div 1024)] @ report,
          status = Uncaught (NameError ''earliest'')\<rparr>
     | Inr (Some (earliest, latest)) \<Rightarrow>
         (let html5 = replace html4 ''PLACEHOLDER_DATE_RANGE'' (earliest @ dash @ latest) in
          \<lparr>files = fs(output_path \<mapsto> html5),
           console = out3 @ [Created (py_str_len html5 div 1024)] @ report
                     @ [DateRange earliest latest, Blank, Done],
           status = Exit 0\<rparr>))))))))"

section \<open>The data model of the specification\<close>

text \<open>
  The fields of a record as the data model names them, read without Python's failure
  cases: \<open>field\<close> is the member of an object, \<open>field_or\<close> the member or a default,
  \<open>elements\<close> the entries of a sequence.
\<close>

fun field :: "json \<Rightarrow> string \<Rightarrow> json option" where
  "field (JObj kvs) k = map_of kvs k"
| "field _ k = None"

definition field_or :: "json \<Rightarrow> string \<Rightarrow> json \<Rightarrow> json" where
  "field_or v k d = (case field v k of None \<Rightarrow> d | Some x \<Rightarrow> x)"

definition has :: "json \<Rightarrow> string \<Rightarrow> bool" where
  "has v k = (field v k \<noteq> None)"

fun elements :: "json \<Rightarrow> json list" where
  "elements (JArr xs) = xs"
| "elements _ = []"

fun objects :: "json \<Rightarrow> bool" where
  "objects (JArr xs) = list_all is_obj xs"
| "objects _ = False"

definition sutta_refs :: "json \<Rightarrow> json" where
  "sutta_refs v = field_or v ''sutta_refs'' (JArr [])"

definition other_refs :: "json \<Rightarrow> json" where
  "other_refs v = field_or v ''other_refs'' (JArr [])"

definition related_videos :: "json \<Rightarrow> json" where
  "related_videos v = field_or v ''related_videos'' (JArr [])"

text \<open>A record has the shape of a VideoRecord when it is an object and its three
  reference fields, where present, are sequences of objects. Nothing is said yet about
  which fields are present.\<close>

definition shaped :: "json \<Rightarrow> bool" where
  "shaped v = (is_obj v \<and> objects (sutta_refs v) \<and> objects (other_refs v)
               \<and> objects (related_videos v))"

text \<open>\<open>missing v k\<close>: the required field \<open>k\<close> is absent from the record \<open>v\<close> or from one
  of its entries. The required fields are \<open>title\<close> and \<open>youtube_url\<close> of the record,
  \<open>sutta_id\<close> of a sutta reference, \<open>title\<close> and \<open>url\<close> of a related video.\<close>

definition missing :: "json \<Rightarrow> string \<Rightarrow> bool" where
  "missing v k =
     ((k = ''title'' \<and> \<not> has v ''title'')
      \<or> (k = ''youtube_url'' \<and> \<not> has v ''youtube_url'')
      \<or> (k = ''sutta_id'' \<and> list_ex (\<lambda>s. \<not> has s ''sutta_id'') (elements (sutta_refs v)))
      \<or> (k = ''title'' \<and> list_ex (\<lambda>r. \<not> has r ''title'') (elements (related_videos v)))
      \<or> (k = ''url'' \<and> list_ex (\<lambda>r. \<not> has r ''url'') (elements (related_videos v))))"

definition lacks_required :: "json \<Rightarrow> bool" where
  "lacks_required v = list_ex (missing v) [''title'', ''youtube_url'', ''sutta_id'', ''url'']"

definition valid_record :: "json \<Rightarrow> bool" where
  "valid_record v = (shaped v \<and> \<not> lacks_required v)"

text \<open>The abbreviation mapping, entry by entry: \<open>c\<close> is the compact form of the source
  entry, and the three sequences of a compact record are present, as long as the
  source's and in its order. A required field is carried over, an optional field that is absent becomes the
  empty string or the empty sequence, and a label that is null or empty becomes the
  empty string.\<close>

definition sutta_matches :: "json \<Rightarrow> json \<Rightarrow> bool" where
  "sutta_matches s c =
     (field c ''id'' = field s ''sutta_id''
      \<and> field c ''url'' = Some (field_or s ''url'' (JStr []))
      \<and> field c ''l'' = Some (let l = field_or s ''label'' (JStr [])
                               in if truthy l then l else JStr []))"

definition other_matches :: "json \<Rightarrow> json \<Rightarrow> bool" where
  "other_matches r c =
     (field c ''type'' = Some (field_or r ''type'' (JStr []))
      \<and> field c ''label'' = Some (field_or r ''label'' (JStr []))
      \<and> field c ''url'' = Some (field_or r ''url'' (JStr [])))"

definition related_matches :: "json \<Rightarrow> json \<Rightarrow> bool" where
  "related_matches r c =
     (field c ''t'' = field r ''title'' \<and> field c ''u'' = field r ''url'')"

definition record_matches :: "json \<Rightarrow> json \<Rightarrow> bool" where
  "record_matches v c =
     (field c ''t'' = field v ''title''
      \<and> field c ''u'' = field v ''youtube_url''
      \<and> field c ''d'' = Some (field_or v ''date'' (JStr []))
      \<and> field c ''s'' = Some (field_or v ''summary'' (JStr []))
      \<and> field c ''tp'' = Some (field_or v ''topics'' (JArr []))
      \<and> (case field c ''sr'' of
             Some (JArr srs) \<Rightarrow> list_all2 sutta_matches (elements (sutta_refs v)) srs
           | _ \<Rightarrow> False)
      \<and> (case field c ''or'' of
             Some (JArr ors) \<Rightarrow> list_all2 other_matches (elements (other_refs v)) ors
           | _ \<Rightarrow> False)
      \<and> (case field c ''rv'' of
             Some (JArr rvs) \<Rightarrow> list_all2 related_matches (elements (related_videos v)) rvs
           | _ \<Rightarrow> False))"

text \<open>The statistics of the specification: the topic strings and the sutta ids of a
  record, and the number of distinct ones in a list of records. A record is well typed
  when it is valid, its topics are a sequence of strings and its sutta ids are strings.\<close>

fun strings :: "json \<Rightarrow> bool" where
  "strings (JArr xs) = list_all is_str xs"
| "strings _ = False"

definition topic_strings :: "json \<Rightarrow> string list" where
  "topic_strings v = map str_of (elements (field_or v ''topics'' (JArr [])))"

definition sutta_ids :: "json \<Rightarrow> string list" where
  "sutta_ids v = map (\<lambda>s. str_of (field_or s ''sutta_id'' JNull)) (elements (sutta_refs v))"

definition well_typed :: "json \<Rightarrow> bool" where
  "well_typed v =
     (valid_record v \<and> strings (field_or v ''topics'' (JArr []))
      \<and> list_all (\<lambda>s. is_str (field_or s ''sutta_id'' JNull)) (elements (sutta_refs v)))"

definition topic_count :: "json list \<Rightarrow> nat" where
  "topic_count recs = card (set (concat (map topic_strings recs)))"

definition sutta_count :: "json list \<Rightarrow> nat" where
  "sutta_count recs = card (set (concat (map sutta_ids recs)))"

text \<open>The template with the first four tokens replaced, in the order of the
  specification: the data, the video count, the topic count, the sutta count.\<close>

definition four_filled :: "string \<Rightarrow> string \<Rightarrow> nat \<Rightarrow> nat \<Rightarrow> nat \<Rightarrow> string" where
  "four_filled template data videos topics suttas =
     replace (replace (replace (replace template
       ''PLACEHOLDER_DATA'' data)
       ''PLACEHOLDER_VIDEO_COUNT'' (str_of_nat videos))
       ''PLACEHOLDER_TOPIC_COUNT'' (str_of_nat topics))
       ''PLACEHOLDER_SUTTA_COUNT'' (str_of_nat suttas)"

text \<open>The non-empty date values of the records, in the order of the list, and whether a
  string is accepted as a date.\<close>

definition date_fields :: "json list \<Rightarrow> json list" where
  "date_fields recs = filter truthy (map (\<lambda>v. field_or v ''date'' JNull) recs)"

definition parseable :: "stdlib \<Rightarrow> string \<Rightarrow> bool" where
  "parseable lib s = (case strptime lib s of Inl e \<Rightarrow> False | Inr d \<Rightarrow> True)"

subsection \<open>Occurrences of two tokens that cannot overlap\<close>

text \<open>Two strings are comparable when one is a prefix of the other. \<open>clear_of a u\<close>: no
  occurrence of \<open>a\<close> can begin inside \<open>u\<close>, that is, no non-empty suffix of \<open>u\<close> is
  comparable with \<open>a\<close>. \<open>no_overlap old tok\<close>: in no text does an occurrence of \<open>old\<close>
  share a character with an occurrence of \<open>tok\<close>.\<close>

definition comparable :: "string \<Rightarrow> string \<Rightarrow> bool" where
  "comparable a b = (prefix a b \<or> prefix b a)"

fun clear_of :: "string \<Rightarrow> string \<Rightarrow> bool" where
  "clear_of a [] = True"
| "clear_of a (c # cs) = (\<not> comparable a (c # cs) \<and> clear_of a cs)"

definition no_overlap :: "string \<Rightarrow> string \<Rightarrow> bool" where
  "no_overlap old tok = (old \<noteq> [] \<and> clear_of old tok \<and> clear_of tok (tl old))"

subsection \<open>Sample data\<close>

text \<open>Records and a directory on which the theorems below are run. \<open>reads_as j\<close> is a
  sample library: its parser finds the value \<open>j\<close> in the data file, of the decimal digits
  beyond ASCII it knows the fullwidth ones, and it puts no zeros in front of a year. The
  sample dates are ASCII with years from 1000 on, where every library agrees.\<close>

definition ref_null :: json where
  "ref_null = JObj [(''sutta_id'', JStr ''MN 9''), (''url'', JNull), (''label'', JNull)]"

definition video_full :: json where
  "video_full = JObj
     [(''title'', JStr ''Right View''), (''date'', JStr ''2021-03-05''),
      (''youtube_url'', JStr ''y/a''), (''summary'', JStr ''On views''),
      (''topics'', JArr [JStr ''views'', JStr ''path'', JStr ''views'']),
      (''sutta_refs'', JArr [ref_null]),
      (''other_refs'', JArr [JObj [(''type'', JStr ''book'')]]),
      (''related_videos'', JArr [JObj [(''title'', JStr ''Karma''), (''url'', JStr ''y/b'')]])]"

definition video_plain :: json where
  "video_plain = JObj [(''title'', JStr ''Karma''), (''youtube_url'', JStr ''y/b''),
                       (''topics'', JArr [JStr ''path'', JStr ''karma''])]"

definition video_untitled :: json where
  "video_untitled = JObj [(''youtube_url'', JStr ''y/c'')]"

definition video_dated :: "string \<Rightarrow> json" where
  "video_dated d = JObj [(''title'', JStr ''Talk''), (''youtube_url'', JStr ''y/d''),
                         (''date'', JStr d)]"

text \<open>The fullwidth digits U+FF10 to U+FF19, a part of every Unicode database.\<close>

definition fullwidth_digit :: "string \<Rightarrow> nat option" where
  "fullwidth_digit cp =
     (case cp of
        [a, b, c] \<Rightarrow>
          (if a = CHR 0xEF \<and> b = CHR 0xBC \<and> 0x90 \<le> (of_char c :: nat) \<and> (of_char c :: nat) \<le> 0x99
           then Some (of_char c - 0x90) else None)
      | _ \<Rightarrow> None)"

definition reads_as :: "json \<Rightarrow> stdlib" where
  "reads_as j =
     \<lparr>json_load = (\<lambda>raw. Inr j), unicode_digit = fullwidth_digit, pads_year = False\<rparr>"

definition folder :: "string \<Rightarrow> fs" where
  "folder template = [data_path \<mapsto> ''[]'', template_path \<mapsto> template]"

section \<open>Properties\<close>

subsection \<open>Compaction on objects\<close>

lemma subscript_obj: "is_obj v \<Longrightarrow> subscript v k = (case field v k of None \<Rightarrow> Inl (KeyError k) | Some x \<Rightarrow> Inr x)"
  by (cases v) auto

lemma py_get_obj: "is_obj v \<Longrightarrow> py_get v k d = Inr (field_or v k d)"
  by (cases v) (auto simp: field_or_def split: option.splits)

lemma py_iter_objects: "objects j \<Longrightarrow> py_iter j = Inr (elements j)"
  by (cases j) auto

lemma compact_sutta_ref_obj:
  "is_obj s \<Longrightarrow> compact_sutta_ref s =
     (case field s ''sutta_id'' of
        None \<Rightarrow> Inl (KeyError ''sutta_id'')
      | Some i \<Rightarrow> Inr (JObj [(''id'', i), (''url'', field_or s ''url'' (JStr [])),
                   (''l'', let l = field_or s ''label'' (JStr []) in if truthy l then l else JStr [])]))"
  by (simp add: compact_sutta_ref_def subscript_obj py_get_obj split: option.splits)

lemma compact_other_ref_obj:
  "is_obj r \<Longrightarrow> compact_other_ref r =
     Inr (JObj [(''type'', field_or r ''type'' (JStr [])), (''label'', field_or r ''label'' (JStr [])),
                (''url'', field_or r ''url'' (JStr []))])"
  by (simp add: compact_other_ref_def py_get_obj)

lemma compact_related_obj:
  "is_obj r \<Longrightarrow> compact_related r =
     (case field r ''title'' of
        None \<Rightarrow> Inl (KeyError ''title'')
      | Some t \<Rightarrow> (case field r ''url'' of
           None \<Rightarrow> Inl (KeyError ''url'')
         | Some u \<Rightarrow> Inr (JObj [(''t'', t), (''u'', u)])))"
  by (simp add: compact_related_def subscript_obj split: option.splits)

lemma suttas_ok:
  "list_all is_obj ss \<Longrightarrow> \<not> list_ex (\<lambda>s. \<not> has s ''sutta_id'') ss \<Longrightarrow>
   \<exists>sr. map_err compact_sutta_ref ss = Inr sr \<and> list_all2 sutta_matches ss sr"
  by (induction ss) (auto simp: compact_sutta_ref_obj has_def sutta_matches_def)

lemma suttas_fail:
  "list_all is_obj ss \<Longrightarrow> list_ex (\<lambda>s. \<not> has s ''sutta_id'') ss \<Longrightarrow>
   map_err compact_sutta_ref ss = Inl (KeyError ''sutta_id'')"
  by (induction ss) (auto simp: compact_sutta_ref_obj has_def split: option.splits)

lemma others_ok:
  "list_all is_obj os \<Longrightarrow>
   \<exists>or. map_err compact_other_ref os = Inr or \<and> list_all2 other_matches os or"
  by (induction os) (auto simp: compact_other_ref_obj other_matches_def)

lemma related_ok:
  "list_all is_obj rs \<Longrightarrow> \<not> list_ex (\<lambda>r. \<not> has r ''title'') rs \<Longrightarrow>
   \<not> list_ex (\<lambda>r. \<not> has r ''url'') rs \<Longrightarrow>
   \<exists>rv. map_err compact_related rs = Inr rv \<and> list_all2 related_matches rs rv"
  by (induction rs) (auto simp: compact_related_obj has_def related_matches_def)

lemma related_fail:
  "list_all is_obj rs \<Longrightarrow>
   list_ex (\<lambda>r. \<not> has r ''title'') rs \<or> list_ex (\<lambda>r. \<not> has r ''url'') rs \<Longrightarrow>
   (map_err compact_related rs = Inl (KeyError ''title'') \<and> list_ex (\<lambda>r. \<not> has r ''title'') rs)
   \<or> (map_err compact_related rs = Inl (KeyError ''url'') \<and> list_ex (\<lambda>r. \<not> has r ''url'') rs)"
proof (induction rs)
  case Nil
  then show ?case by simp
next
  case (Cons r rs)
  then have obj: "is_obj r" and objs: "list_all is_obj rs" by simp_all
  show ?case
  proof (cases "field r ''title''")
    case None
    then show ?thesis using obj by (simp add: compact_related_obj has_def)
  next
    case t: (Some t)
    show ?thesis
    proof (cases "field r ''url''")
      case None
      then show ?thesis using obj t by (simp add: compact_related_obj has_def)
    next
      case u: (Some u)
      with t Cons.prems have "list_ex (\<lambda>r. \<not> has r ''title'') rs \<or> list_ex (\<lambda>r. \<not> has r ''url'') rs"
        by (simp add: has_def)
      from Cons.IH [OF objs this] show ?thesis
        using obj t u by (auto simp: compact_related_obj has_def)
    qed
  qed
qed


lemma compact_record_obj:
  assumes "shaped v"
  shows "compact_record v =
     (case field v ''title'' of
        None \<Rightarrow> Inl (KeyError ''title'')
      | Some t \<Rightarrow>
     (case field v ''youtube_url'' of
        None \<Rightarrow> Inl (KeyError ''youtube_url'')
      | Some u \<Rightarrow>
          and_then (map_err compact_sutta_ref (elements (sutta_refs v))) (\<lambda>sr.
          and_then (map_err compact_other_ref (elements (other_refs v))) (\<lambda>or.
          and_then (map_err compact_related (elements (related_videos v))) (\<lambda>rv.
            Inr (JObj [(''t'', t), (''d'', field_or v ''date'' (JStr [])), (''u'', u),
                       (''s'', field_or v ''summary'' (JStr [])),
                       (''tp'', field_or v ''topics'' (JArr [])),
                       (''sr'', JArr sr), (''or'', JArr or), (''rv'', JArr rv)]))))))"
proof -
  from assms have obj: "is_obj v" by (simp add: shaped_def)
  from assms have it:
    "py_iter (field_or v ''sutta_refs'' (JArr [])) = Inr (elements (sutta_refs v))"
    "py_iter (field_or v ''other_refs'' (JArr [])) = Inr (elements (other_refs v))"
    "py_iter (field_or v ''related_videos'' (JArr [])) = Inr (elements (related_videos v))"
    by (simp_all add: shaped_def py_iter_objects sutta_refs_def other_refs_def related_videos_def)
  show ?thesis
  proof (cases "field v ''title''")
    case None
    then show ?thesis by (simp add: compact_record_def subscript_obj [OF obj])
  next
    case t: (Some t)
    show ?thesis
    proof (cases "field v ''youtube_url''")
      case None
      then show ?thesis
        by (simp add: compact_record_def subscript_obj [OF obj] py_get_obj [OF obj] t)
    next
      case (Some u)
      then show ?thesis
        by (simp add: compact_record_def subscript_obj [OF obj] py_get_obj [OF obj] t it)
    qed
  qed
qed

lemma objects_elements: "objects j \<Longrightarrow> list_all is_obj (elements j)"
  by (cases j) simp_all

lemma missing_cases: "missing v k \<Longrightarrow> k \<in> set [''title'', ''youtube_url'', ''sutta_id'', ''url'']"
  unfolding missing_def by (elim disjE conjE) simp_all

lemma lacks_required_iff: "lacks_required v \<longleftrightarrow> (\<exists>k. missing v k)"
  unfolding lacks_required_def list_ex_iff using missing_cases by blast

lemma compact_record_shaped:
  assumes sh: "shaped v"
  shows "(\<not> lacks_required v \<and> (\<exists>c. compact_record v = Inr c \<and> record_matches v c))
         \<or> (\<exists>k. missing v k \<and> compact_record v = Inl (KeyError k))"
proof -
  from sh have objs: "list_all is_obj (elements (sutta_refs v))"
      "list_all is_obj (elements (other_refs v))"
      "list_all is_obj (elements (related_videos v))"
    by (simp_all add: shaped_def objects_elements)
  note unf = compact_record_obj [OF sh]
  show ?thesis
  proof (cases "field v ''title''")
    case None
    then have "missing v ''title''" "compact_record v = Inl (KeyError ''title'')"
      by (simp_all add: unf missing_def has_def)
    then show ?thesis by blast
  next
    case t: (Some t)
    show ?thesis
    proof (cases "field v ''youtube_url''")
      case None
      then have "missing v ''youtube_url''" "compact_record v = Inl (KeyError ''youtube_url'')"
        by (simp_all add: unf t missing_def has_def)
      then show ?thesis by blast
    next
      case u: (Some u)
      show ?thesis
      proof (cases "list_ex (\<lambda>s. \<not> has s ''sutta_id'') (elements (sutta_refs v))")
        case True
        then have "missing v ''sutta_id''" "compact_record v = Inl (KeyError ''sutta_id'')"
          using suttas_fail [OF objs(1) True] by (simp_all add: unf t u missing_def)
        then show ?thesis by blast
      next
        case no_s: False
        from suttas_ok [OF objs(1) no_s] obtain sr where
          sr: "map_err compact_sutta_ref (elements (sutta_refs v)) = Inr sr"
              "list_all2 sutta_matches (elements (sutta_refs v)) sr" by blast
        from others_ok [OF objs(2)] obtain or where
          or: "map_err compact_other_ref (elements (other_refs v)) = Inr or"
              "list_all2 other_matches (elements (other_refs v)) or" by blast
        show ?thesis
        proof (cases "list_ex (\<lambda>r. \<not> has r ''title'') (elements (related_videos v))
                      \<or> list_ex (\<lambda>r. \<not> has r ''url'') (elements (related_videos v))")
          case True
          from related_fail [OF objs(3) True] show ?thesis
          proof
            assume a: "map_err compact_related (elements (related_videos v)) = Inl (KeyError ''title'')
                       \<and> list_ex (\<lambda>r. \<not> has r ''title'') (elements (related_videos v))"
            then have "missing v ''title''" "compact_record v = Inl (KeyError ''title'')"
              by (simp_all add: unf t u sr or missing_def)
            then show ?thesis by blast
          next
            assume a: "map_err compact_related (elements (related_videos v)) = Inl (KeyError ''url'')
                       \<and> list_ex (\<lambda>r. \<not> has r ''url'') (elements (related_videos v))"
            then have "missing v ''url''" "compact_record v = Inl (KeyError ''url'')"
              by (simp_all add: unf t u sr or missing_def)
            then show ?thesis by blast
          qed
        next
          case no_r: False
          then have nr: "\<not> list_ex (\<lambda>r. \<not> has r ''title'') (elements (related_videos v))"
              "\<not> list_ex (\<lambda>r. \<not> has r ''url'') (elements (related_videos v))" by simp_all
          from related_ok [OF objs(3) nr] obtain rv where
            rv: "map_err compact_related (elements (related_videos v)) = Inr rv"
                "list_all2 related_matches (elements (related_videos v)) rv" by blast
          have "\<not> missing v k" for k
            using t u no_s nr unfolding missing_def has_def by simp
          then have "\<not> lacks_required v"
            by (simp add: lacks_required_iff)
          moreover have "\<exists>c. compact_record v = Inr c \<and> record_matches v c"
            using sr or rv by (simp add: unf t u record_matches_def field_or_def)
          ultimately show ?thesis by blast
        qed
      qed
    qed
  qed
qed


lemma compact_records_valid:
  "list_all valid_record recs \<Longrightarrow>
   \<exists>cs. map_err compact_record recs = Inr cs \<and> list_all2 record_matches recs cs"
proof (induction recs)
  case Nil
  then show ?case by simp
next
  case (Cons v recs)
  then have "shaped v" "\<not> lacks_required v" by (simp_all add: valid_record_def)
  with compact_record_shaped [of v] obtain c where
    "compact_record v = Inr c" "record_matches v c"
    by (auto simp: lacks_required_iff)
  moreover from Cons obtain cs where
    "map_err compact_record recs = Inr cs" "list_all2 record_matches recs cs" by auto
  ultimately show ?case by simp
qed

lemma compact_records_fail:
  "list_all shaped recs \<Longrightarrow> list_ex lacks_required recs \<Longrightarrow>
   \<exists>v\<in>set recs. \<exists>k. missing v k \<and> map_err compact_record recs = Inl (KeyError k)"
proof (induction recs)
  case Nil
  then show ?case by simp
next
  case (Cons v recs)
  then have sh: "shaped v" and shs: "list_all shaped recs" by simp_all
  from compact_record_shaped [OF sh] show ?case
  proof
    assume ok: "\<not> lacks_required v \<and> (\<exists>c. compact_record v = Inr c \<and> record_matches v c)"
    with Cons.prems have "list_ex lacks_required recs" by simp
    from Cons.IH [OF shs this] obtain w k where
      "w \<in> set recs" "missing w k" "map_err compact_record recs = Inl (KeyError k)" by blast
    with ok show ?thesis by auto
  next
    assume "\<exists>k. missing v k \<and> compact_record v = Inl (KeyError k)"
    then show ?thesis by auto
  qed
qed

subsection \<open>The data file is missing\<close>

text \<open>
  C4. When \<^verbatim>\<open>dougs_dharma_index.json\<close> does not exist, the run prints the guidance of
  the \<^verbatim>\<open>FileNotFoundError\<close> handler, exits with code 1 and leaves every file as it was.
\<close>

theorem missing_data_file:
  assumes "fs data_path = None"
  shows "build lib fs =
           \<lparr>files = fs, console = [Building, Blank, DataNotFound], status = Exit 1\<rparr>"
  using assms by (simp add: build_def)

theorem missing_data_file_witness:
  "[template_path \<mapsto> ''PLACEHOLDER_DATA'', output_path \<mapsto> ''old page''] data_path = None
   \<and> build (reads_as (JArr []))
         [template_path \<mapsto> ''PLACEHOLDER_DATA'', output_path \<mapsto> ''old page'']
       = \<lparr>files = [template_path \<mapsto> ''PLACEHOLDER_DATA'', output_path \<mapsto> ''old page''],
          console = [Building, Blank, DataNotFound], status = Exit 1\<rparr>"
proof -
  have absent:
    "[template_path \<mapsto> ''PLACEHOLDER_DATA'', output_path \<mapsto> ''old page''] data_path = None"
    by (simp add: data_path_def template_path_def output_path_def)
  show ?thesis
    using absent
      missing_data_file [where lib = "reads_as (JArr [])"
        and fs = "[template_path \<mapsto> ''PLACEHOLDER_DATA'', output_path \<mapsto> ''old page'']"]
    by simp
qed


subsection \<open>Compaction of valid lists\<close>

text \<open>
  C5. When every record of the list is valid (it has the shape of a VideoRecord and all
  required fields are present), compaction succeeds, the compact list is as long as the
  input, and at every index the compact record carries the source record's fields under
  the abbreviated names, with absent optional fields defaulted to the empty string or
  the empty sequence.
\<close>

theorem compact_preserves_records:
  assumes "list_all valid_record recs"
  shows "\<exists>cs. compact (JArr recs) = Inr cs \<and> length cs = length recs
              \<and> (\<forall>i<length recs. record_matches (recs ! i) (cs ! i))"
proof -
  from compact_records_valid [OF assms] obtain cs where
    cs: "map_err compact_record recs = Inr cs" "list_all2 record_matches recs cs" by blast
  from cs(2) have "length cs = length recs"
    and "\<forall>i<length recs. record_matches (recs ! i) (cs ! i)"
    by (simp_all add: list_all2_conv_all_nth)
  with cs(1) show ?thesis by (simp add: compact_def)
qed

theorem compact_preserves_records_witness:
  "list_all valid_record [video_full, video_plain]
   \<and> (\<exists>cs. compact (JArr [video_full, video_plain]) = Inr cs \<and> length cs = 2
            \<and> record_matches video_full (cs ! 0) \<and> record_matches video_plain (cs ! 1))"
proof -
  have valid: "list_all valid_record [video_full, video_plain]"
    by (simp add: valid_record_def shaped_def lacks_required_def missing_def has_def
          field_or_def sutta_refs_def other_refs_def related_videos_def
          video_full_def video_plain_def ref_null_def)
  from compact_preserves_records [OF valid] obtain cs where
    cs: "compact (JArr [video_full, video_plain]) = Inr cs" "length cs = 2"
    and all: "\<forall>i<2. record_matches ([video_full, video_plain] ! i) (cs ! i)"
    by auto
  have "(0::nat) < 2" and "(1::nat) < 2" by simp_all
  with all have "record_matches ([video_full, video_plain] ! 0) (cs ! 0)"
    and "record_matches ([video_full, video_plain] ! 1) (cs ! 1)"
    by blast+
  then have "record_matches video_full (cs ! 0)" and "record_matches video_plain (cs ! 1)"
    by simp_all
  with cs valid show ?thesis by blast
qed

subsection \<open>A sutta reference with null members\<close>

text \<open>
  C10. In the compact form of a sutta reference the url is carried over as it is: a url
  that is present and null stays null and is serialized as \<^verbatim>\<open>null\<close>. A label that is
  present and null becomes the empty string. The id and the url are never coalesced.
\<close>

theorem sutta_ref_only_label_coalesced:
  assumes "is_obj s" and "field s ''sutta_id'' = Some i"
  shows "\<exists>c. compact_sutta_ref s = Inr c
           \<and> field c ''id'' = Some i
           \<and> field c ''url'' = Some (field_or s ''url'' (JStr []))
           \<and> (field s ''url'' = Some JNull \<longrightarrow>
                field c ''url'' = Some JNull \<and> dumps (field_or c ''url'' (JStr [])) = ''null'')
           \<and> (field s ''label'' = Some JNull \<longrightarrow> field c ''l'' = Some (JStr []))"
  using assms by (simp add: compact_sutta_ref_obj field_or_def)

theorem sutta_ref_only_label_coalesced_witness:
  "is_obj ref_null \<and> field ref_null ''sutta_id'' = Some (JStr ''MN 9'')
   \<and> (\<exists>c. compact_sutta_ref ref_null = Inr c
          \<and> field c ''url'' = Some JNull
          \<and> dumps (field_or c ''url'' (JStr [])) = ''null''
          \<and> field c ''l'' = Some (JStr []))"
proof -
  have obj: "is_obj ref_null" and id: "field ref_null ''sutta_id'' = Some (JStr ''MN 9'')"
    and nulls: "field ref_null ''url'' = Some JNull" "field ref_null ''label'' = Some JNull"
    by (simp_all add: ref_null_def)
  from sutta_ref_only_label_coalesced [OF obj id] show ?thesis
    using obj id nulls by auto
qed

subsection \<open>A record lacks a required field\<close>

lemma untitled_facts:
  "shaped video_untitled" "shaped video_plain" "lacks_required video_untitled"
  by (simp_all add: shaped_def lacks_required_def missing_def has_def
        field_or_def sutta_refs_def other_refs_def related_videos_def
        video_untitled_def video_plain_def)

text \<open>
  C1, as the script behaves. When the records have the shape of a VideoRecord and one of
  them lacks a required field, compaction raises a \<^verbatim>\<open>KeyError\<close> that names a field
  missing from a record of the list, nobody catches it, and the run ends after the
  message about the loaded videos with every file as it was. The exception carries the
  name of the field and nothing else.
\<close>

theorem missing_field_aborts:
  assumes "fs data_path = Some raw"
    and "json_load lib raw = Inr (JArr recs)"
    and "list_all shaped recs"
    and "list_ex lacks_required recs"
  shows "\<exists>v\<in>set recs. \<exists>k. missing v k
           \<and> compact (JArr recs) = Inl (KeyError k)
           \<and> build lib fs =
               \<lparr>files = fs, console = [Building, Blank, Loaded (length recs)],
                status = Uncaught (KeyError k)\<rparr>"
proof -
  from compact_records_fail [OF assms(3,4)] obtain v k where
    v: "v \<in> set recs" "missing v k" "map_err compact_record recs = Inl (KeyError k)" by blast
  then have c: "compact (JArr recs) = Inl (KeyError k)" by (simp add: compact_def)
  have "build lib fs =
          \<lparr>files = fs, console = [Building, Blank, Loaded (length recs)],
           status = Uncaught (KeyError k)\<rparr>"
    using assms(1,2) c by (simp add: build_def)
  with v c show ?thesis by blast
qed

theorem missing_field_aborts_witness:
  "folder ''PLACEHOLDER_DATA'' data_path = Some ''[]''
   \<and> json_load (reads_as (JArr [video_plain, video_untitled])) ''[]'' = Inr (JArr [video_plain, video_untitled])
   \<and> list_all shaped [video_plain, video_untitled]
   \<and> list_ex lacks_required [video_plain, video_untitled]
   \<and> compact (JArr [video_plain, video_untitled]) = Inl (KeyError ''title'')
   \<and> build (reads_as (JArr [video_plain, video_untitled])) (folder ''PLACEHOLDER_DATA'') =
       \<lparr>files = folder ''PLACEHOLDER_DATA'', console = [Building, Blank, Loaded 2],
        status = Uncaught (KeyError ''title'')\<rparr>"
proof -
  have a: "folder ''PLACEHOLDER_DATA'' data_path = Some ''[]''"
    by (simp add: folder_def data_path_def template_path_def)
  have b: "json_load (reads_as (JArr [video_plain, video_untitled])) ''[]'' = Inr (JArr [video_plain, video_untitled])"
    by (simp add: reads_as_def)
  have c: "list_all shaped [video_plain, video_untitled]"
    and d: "list_ex lacks_required [video_plain, video_untitled]"
    by (simp_all add: untitled_facts)
  have k: "compact (JArr [video_plain, video_untitled]) = Inl (KeyError ''title'')"
    by (simp add: compact_def compact_record_def video_plain_def video_untitled_def)
  from missing_field_aborts [where fs = "folder ''PLACEHOLDER_DATA''"
      and lib = "reads_as (JArr [video_plain, video_untitled])"
      and raw = "''[]''" and recs = "[video_plain, video_untitled]", OF a b c d] k
  show ?thesis
    using a b c d by auto
qed

text \<open>
  C1, as stated, asks for the index of the offending record in the error. The same list
  with the untitled record first or last raises the same \<^verbatim>\<open>KeyError\<close>, and the two
  runs are equal in every message and in the exit status.
\<close>

theorem key_error_hides_index:
  "compact (JArr [video_untitled, video_plain]) = Inl (KeyError ''title'')
   \<and> compact (JArr [video_plain, video_untitled]) = Inl (KeyError ''title'')
   \<and> build (reads_as (JArr [video_untitled, video_plain])) (folder ''PLACEHOLDER_DATA'')
     = build (reads_as (JArr [video_plain, video_untitled])) (folder ''PLACEHOLDER_DATA'')"
proof -
  have a: "compact (JArr [video_untitled, video_plain]) = Inl (KeyError ''title'')"
    by (simp add: compact_def compact_record_def video_untitled_def)
  have b: "compact (JArr [video_plain, video_untitled]) = Inl (KeyError ''title'')"
    by (simp add: compact_def compact_record_def video_plain_def video_untitled_def)
  have d: "folder ''PLACEHOLDER_DATA'' data_path = Some ''[]''"
    by (simp add: folder_def data_path_def template_path_def)
  show ?thesis
    using a b d by (simp add: build_def reads_as_def)
qed

subsection \<open>The two sets on well-typed records\<close>

lemma map_err_map:
  "(\<And>x. x \<in> set xs \<Longrightarrow> f x = Inr (g x)) \<Longrightarrow> map_err f xs = Inr (map g xs)"
  by (induction xs) simp_all

lemma hash_strings: "list_all is_str ts \<Longrightarrow> map_err hash_key ts = Inr (map (\<lambda>t. HStr (str_of t)) ts)"
proof (rule map_err_map)
  fix t assume "list_all is_str ts" "t \<in> set ts"
  then have "is_str t" by (simp add: list_all_iff)
  then show "hash_key t = Inr (HStr (str_of t))" by (cases t) simp_all
qed

lemma hash_sutta_ids:
  assumes "list_all is_obj ss" and "list_all (\<lambda>s. is_str (field_or s ''sutta_id'' JNull)) ss"
  shows "map_err (\<lambda>s. and_then (subscript s ''sutta_id'') hash_key) ss
         = Inr (map (\<lambda>s. HStr (str_of (field_or s ''sutta_id'' JNull))) ss)"
proof (rule map_err_map)
  fix s assume "s \<in> set ss"
  with assms have obj: "is_obj s" and str: "is_str (field_or s ''sutta_id'' JNull)"
    by (simp_all add: list_all_iff)
  from str obtain i where i: "field_or s ''sutta_id'' JNull = JStr i"
    by (cases "field_or s ''sutta_id'' JNull") simp_all
  then have "field s ''sutta_id'' = Some (JStr i)"
    by (simp add: field_or_def split: option.splits)
  with obj i show "and_then (subscript s ''sutta_id'') hash_key
                   = Inr (HStr (str_of (field_or s ''sutta_id'' JNull)))"
    by (simp add: subscript_obj)
qed

lemma strings_elements: "strings j \<Longrightarrow> py_iter j = Inr (elements j) \<and> list_all is_str (elements j)"
  by (cases j) simp_all

lemma stats_loop_well_typed:
  "list_all well_typed recs \<Longrightarrow>
   stats_loop recs (T, S) =
     Inr (T \<union> HStr ` set (concat (map topic_strings recs)),
          S \<union> HStr ` set (concat (map sutta_ids recs)))"
proof (induction recs arbitrary: T S)
  case Nil
  then show ?case by simp
next
  case (Cons v recs)
  then have wt: "well_typed v" and rest: "list_all well_typed recs" by simp_all
  from wt have sh: "shaped v" by (simp add: well_typed_def valid_record_def)
  then have obj: "is_obj v" and so: "objects (sutta_refs v)" by (simp_all add: shaped_def)
  from wt have tp: "strings (field_or v ''topics'' (JArr []))"
    and ids: "list_all (\<lambda>s. is_str (field_or s ''sutta_id'' JNull)) (elements (sutta_refs v))"
    by (simp_all add: well_typed_def)
  have t: "map_err hash_key (elements (field_or v ''topics'' (JArr [])))
           = Inr (map HStr (topic_strings v))"
    using strings_elements [OF tp] by (simp add: hash_strings topic_strings_def comp_def)
  have s: "map_err (\<lambda>s. and_then (subscript s ''sutta_id'') hash_key) (elements (sutta_refs v))
           = Inr (map HStr (sutta_ids v))"
    using hash_sutta_ids [OF objects_elements [OF so] ids] by (simp add: sutta_ids_def comp_def)
  have "stats_loop (v # recs) (T, S)
        = stats_loop recs (T \<union> set (map HStr (topic_strings v)), S \<union> set (map HStr (sutta_ids v)))"
    using strings_elements [OF tp] py_iter_objects [OF so] t s
    by (simp add: py_get_obj [OF obj] sutta_refs_def [symmetric])
  also have "\<dots> = Inr (T \<union> HStr ` set (concat (map topic_strings (v # recs))),
                     S \<union> HStr ` set (concat (map sutta_ids (v # recs))))"
    by (simp add: Cons.IH [OF rest] image_Un Un_assoc)
  finally show ?case .
qed

lemma count_stats_well_typed:
  assumes "list_all well_typed recs"
  shows "\<exists>T S. count_stats (JArr recs) = Inr (T, S)
           \<and> card T = topic_count recs \<and> card S = sutta_count recs"
proof -
  have inj: "inj_on HStr A" for A by (simp add: inj_on_def)
  have "count_stats (JArr recs) =
          Inr (HStr ` set (concat (map topic_strings recs)),
               HStr ` set (concat (map sutta_ids recs)))"
    by (simp add: count_stats_def stats_loop_well_typed [OF assms])
  moreover have "card (HStr ` set (concat (map topic_strings recs))) = topic_count recs"
    unfolding topic_count_def by (rule card_image [OF inj])
  moreover have "card (HStr ` set (concat (map sutta_ids recs))) = sutta_count recs"
    unfolding sutta_count_def by (rule card_image [OF inj])
  ultimately show ?thesis by blast
qed

subsection \<open>The date values and their order\<close>

lemma date_values_objects:
  "list_all is_obj recs \<Longrightarrow> date_values recs = Inr (date_fields recs)"
proof (induction recs)
  case Nil
  then show ?case by (simp add: date_fields_def)
next
  case (Cons v recs)
  then have obj: "is_obj v" and IH: "date_values recs = Inr (date_fields recs)" by simp_all
  show ?case
  proof (cases "truthy (field_or v ''date'' JNull)")
    case True
    then have "field v ''date'' = Some (field_or v ''date'' JNull)"
      by (auto simp: field_or_def split: option.splits)
    then have "subscript v ''date'' = Inr (field_or v ''date'' JNull)"
      by (simp add: subscript_obj [OF obj])
    with True IH show ?thesis
      by (simp add: py_get_obj [OF obj] date_fields_def)
  next
    case False
    with IH show ?thesis
      by (simp add: py_get_obj [OF obj] date_fields_def)
  qed
qed

lemma find_date_range_none:
  "list_all is_obj recs \<Longrightarrow> date_fields recs = [] \<Longrightarrow> find_date_range lib (JArr recs) = Inr None"
  by (simp add: find_date_range_def date_values_objects)

lemma find_date_range_strings:
  assumes "list_all is_obj recs" and "list_all is_str (date_fields recs)"
    and "date_fields recs \<noteq> []"
  shows "find_date_range lib (JArr recs) =
           and_then (strptime lib (hd (sort (map str_of (date_fields recs))))) (\<lambda>e.
           and_then (strptime lib (last (sort (map str_of (date_fields recs))))) (\<lambda>l.
             Inr (Some (strftime lib e, strftime lib l))))"
  using assms by (simp add: find_date_range_def date_values_objects Let_def)

lemma sorted_hd_Min: "sorted ys \<Longrightarrow> ys \<noteq> [] \<Longrightarrow> hd ys = Min (set ys)"
  by (cases ys) (auto intro!: Min_eqI [symmetric])

lemma sorted_last_Max: "sorted ys \<Longrightarrow> ys \<noteq> [] \<Longrightarrow> last ys = Max (set ys)"
proof (induction ys)
  case Nil
  then show ?case by simp
next
  case (Cons y ys)
  show ?case
  proof (cases "ys = []")
    case True
    then show ?thesis by simp
  next
    case False
    with Cons have IH: "last ys = Max (set ys)" and le: "\<forall>x\<in>set ys. y \<le> x" by simp_all
    from False obtain x where "x \<in> set ys" by (cases ys) auto
    with le have "y \<le> Max (set ys)" by (meson List.finite_set Max_ge order_trans)
    then have "Max (set (y # ys)) = Max (set ys)"
      using False by (simp add: max_absorb2)
    with IH False show ?thesis by simp
  qed
qed

lemma sort_not_Nil: "xs \<noteq> [] \<Longrightarrow> sort xs \<noteq> []"
  by (metis set_empty set_sort)

lemma hd_sort_Min: "xs \<noteq> [] \<Longrightarrow> hd (sort xs) = Min (set xs)"
  using sorted_hd_Min [of "sort xs"] by (simp add: sort_not_Nil)

lemma last_sort_Max: "xs \<noteq> [] \<Longrightarrow> last (sort xs) = Max (set xs)"
  using sorted_last_Max [of "sort xs"] by (simp add: sort_not_Nil)

lemma strptime_error: "strptime lib s = Inl e \<Longrightarrow> e = ValueError"
  by (auto simp: strptime_def split: if_splits option.splits list.splits prod.splits)

subsection \<open>Replacement keeps a token it cannot overlap\<close>

lemma comparable_sym: "comparable a b \<Longrightarrow> comparable b a"
  by (auto simp: comparable_def)

lemma prefix_append_comparable: "prefix a (b @ q) \<Longrightarrow> comparable a b"
  by (auto simp: comparable_def prefix_append)

lemma clear_of_suffix: "clear_of a u \<Longrightarrow> suffix v u \<Longrightarrow> v \<noteq> [] \<Longrightarrow> \<not> comparable a v"
  by (induction u) (auto simp: suffix_Cons)

lemma replace_clear:
  "old \<noteq> [] \<Longrightarrow> clear_of old u \<Longrightarrow> replace (u @ q) old new = u @ replace q old new"
proof (induction u)
  case Nil
  then show ?case by simp
next
  case (Cons c cs)
  then have "\<not> comparable old (c # cs)" and rest: "clear_of old cs" by simp_all
  then have "\<not> prefix old (c # cs @ q)"
    using prefix_append_comparable [of old "c # cs" q] by auto
  with Cons.prems(1) have "replace ((c # cs) @ q) old new = c # replace (cs @ q) old new"
    by (simp add: replace.simps)
  with Cons.IH [OF Cons.prems(1) rest] show ?case by simp
qed

lemma sublist_grow: "sublist tok r \<Longrightarrow> sublist tok (a @ r)"
  by (metis append.assoc sublist_def)

lemma prefix_longer:
  "prefix old (p @ x) \<Longrightarrow> length p < length old \<Longrightarrow> \<exists>r. old = p @ r \<and> r \<noteq> [] \<and> prefix r x"
  by (auto simp: prefix_def append_eq_append_conv2)

lemma prefix_shorter:
  "prefix old (p @ x) \<Longrightarrow> length old \<le> length p \<Longrightarrow> \<exists>p2. p = old @ p2"
  by (auto simp: prefix_def append_eq_append_conv2)

lemma replace_keeps:
  assumes no: "no_overlap old tok"
  shows "sublist tok s \<Longrightarrow> sublist tok (replace s old new)"
proof (induction "length s" arbitrary: s rule: less_induct)
  case less
  from no have old: "old \<noteq> []" and c1: "clear_of old tok" and c2: "clear_of tok (tl old)"
    by (simp_all add: no_overlap_def)
  from less.prems obtain p q where s: "s = p @ tok @ q" by (auto simp: sublist_def)
  show ?case
  proof (cases p)
    case Nil
    with s have "replace s old new = tok @ replace q old new"
      by (simp add: replace_clear [OF old c1])
    then show ?thesis by simp
  next
    case (Cons c p')
    with s have sc: "s = c # (p' @ tok @ q)" by simp
    show ?thesis
    proof (cases "prefix old s")
      case True
      have short: "length old \<le> length p"
      proof (rule ccontr)
        assume "\<not> length old \<le> length p"
        then have lt: "length p < length old" by simp
        from True s have "prefix old (p @ (tok @ q))" by simp
        from prefix_longer [OF this lt] obtain r where
          r: "old = p @ r" "r \<noteq> []" "prefix r (tok @ q)" by blast
        from r(3) have "comparable tok r"
          by (rule prefix_append_comparable [THEN comparable_sym])
        moreover from r(1) Cons have "suffix r (tl old)" by (simp add: suffix_def)
        ultimately show False using clear_of_suffix [OF c2 _ r(2)] by blast
      qed
      moreover from True s have "prefix old (p @ (tok @ q))" by simp
      ultimately obtain p2 where p2: "p = old @ p2"
        using prefix_shorter by blast
      then have d: "drop (length old) s = p2 @ tok @ q" using s by simp
      then have "sublist tok (drop (length old) s)" by (simp add: sublist_appendI)
      moreover have "length (drop (length old) s) < length s" using old sc by simp
      ultimately have "sublist tok (replace (drop (length old) s) old new)"
        by (rule less.hyps [rotated])
      then have "sublist tok (new @ replace (drop (length old) s) old new)"
        by (rule sublist_grow)
      moreover have "replace s old new = new @ replace (drop (length old) s) old new"
        using True old by (simp add: sc replace.simps)
      ultimately show ?thesis by simp
    next
      case False
      then have "replace s old new = c # replace (p' @ tok @ q) old new"
        using old by (simp add: sc replace.simps)
      moreover have "sublist tok (replace (p' @ tok @ q) old new)"
        by (rule less.hyps) (simp_all add: sc sublist_appendI)
      ultimately show ?thesis using sublist_grow [of tok _ "[c]"] by simp
    qed
  qed
qed

lemma tokens_apart:
  "no_overlap ''PLACEHOLDER_DATA'' ''PLACEHOLDER_DATE_RANGE''"
  "no_overlap ''PLACEHOLDER_VIDEO_COUNT'' ''PLACEHOLDER_DATE_RANGE''"
  "no_overlap ''PLACEHOLDER_TOPIC_COUNT'' ''PLACEHOLDER_DATE_RANGE''"
  "no_overlap ''PLACEHOLDER_SUTTA_COUNT'' ''PLACEHOLDER_DATE_RANGE''"
  by (simp_all add: no_overlap_def comparable_def)

subsection \<open>A run on well-typed records\<close>

lemma well_typed_objs: "list_all well_typed recs \<Longrightarrow> list_all is_obj recs"
  by (simp add: list_all_iff well_typed_def valid_record_def shaped_def)

lemma well_typed_valid: "list_all well_typed recs \<Longrightarrow> list_all valid_record recs"
  by (simp add: list_all_iff well_typed_def)

lemma build_well_typed:
  assumes d: "fs data_path = Some raw"
    and l: "json_load lib raw = Inr (JArr recs)"
    and wt: "list_all well_typed recs"
    and t: "fs template_path = Some template"
  shows "\<exists>cs. compact (JArr recs) = Inr cs \<and>
     build lib fs =
       (let page = four_filled template (dumps (JArr cs)) (length recs)
                     (topic_count recs) (sutta_count recs);
            out3 = [Building, Blank, Loaded (length recs),
                    Compacted (py_str_len (dumps (JArr cs)) div 1024), TemplateLoaded];
            report = [Blank, Stats (length recs) (topic_count recs) (sutta_count recs)]
        in case find_date_range lib (JArr recs) of
             Inl e \<Rightarrow> \<lparr>files = fs, console = out3, status = Uncaught e\<rparr>
           | Inr None \<Rightarrow>
               \<lparr>files = fs(output_path \<mapsto> page),
                console = out3 @ [Created (py_str_len page div 1024)] @ report,
                status = Uncaught (NameError ''earliest'')\<rparr>
           | Inr (Some (earliest, latest)) \<Rightarrow>
               \<lparr>files = fs(output_path \<mapsto>
                  replace page ''PLACEHOLDER_DATE_RANGE'' (earliest @ dash @ latest)),
                console = out3 @ [Created (py_str_len
                    (replace page ''PLACEHOLDER_DATE_RANGE'' (earliest @ dash @ latest)) div 1024)]
                  @ report @ [DateRange earliest latest, Blank, Done],
                status = Exit 0\<rparr>)"
proof -
  from compact_records_valid [OF well_typed_valid [OF wt]] obtain cs where
    cs: "compact (JArr recs) = Inr cs" by (auto simp: compact_def)
  from count_stats_well_typed [OF wt] obtain T S where
    st: "count_stats (JArr recs) = Inr (T, S)" "card T = topic_count recs"
        "card S = sutta_count recs" by blast
  have "build lib fs = (let page = four_filled template (dumps (JArr cs)) (length recs)
                     (topic_count recs) (sutta_count recs);
            out3 = [Building, Blank, Loaded (length recs),
                    Compacted (py_str_len (dumps (JArr cs)) div 1024), TemplateLoaded];
            report = [Blank, Stats (length recs) (topic_count recs) (sutta_count recs)]
        in case find_date_range lib (JArr recs) of
             Inl e \<Rightarrow> \<lparr>files = fs, console = out3, status = Uncaught e\<rparr>
           | Inr None \<Rightarrow>
               \<lparr>files = fs(output_path \<mapsto> page),
                console = out3 @ [Created (py_str_len page div 1024)] @ report,
                status = Uncaught (NameError ''earliest'')\<rparr>
           | Inr (Some (earliest, latest)) \<Rightarrow>
               \<lparr>files = fs(output_path \<mapsto>
                  replace page ''PLACEHOLDER_DATE_RANGE'' (earliest @ dash @ latest)),
                console = out3 @ [Created (py_str_len
                    (replace page ''PLACEHOLDER_DATE_RANGE'' (earliest @ dash @ latest)) div 1024)]
                  @ report @ [DateRange earliest latest, Blank, Done],
                status = Exit 0\<rparr>)"
    unfolding build_def Let_def four_filled_def
    by (simp only: d l cs st t option.case sum.case prod.case py_len.simps append.simps)
  with cs show ?thesis by blast
qed

lemma build_no_dates:
  assumes d: "fs data_path = Some raw"
    and l: "json_load lib raw = Inr (JArr recs)"
    and wt: "list_all well_typed recs"
    and t: "fs template_path = Some template"
    and nd: "date_fields recs = []"
  shows "\<exists>cs. compact (JArr recs) = Inr cs \<and>
     build lib fs =
       \<lparr>files = fs(output_path \<mapsto> four_filled template (dumps (JArr cs)) (length recs)
                     (topic_count recs) (sutta_count recs)),
        console = [Building, Blank, Loaded (length recs),
                   Compacted (py_str_len (dumps (JArr cs)) div 1024), TemplateLoaded,
                   Created (py_str_len (four_filled template (dumps (JArr cs)) (length recs)
                     (topic_count recs) (sutta_count recs)) div 1024),
                   Blank, Stats (length recs) (topic_count recs) (sutta_count recs)],
        status = Uncaught (NameError ''earliest'')\<rparr>"
proof -
  have "find_date_range lib (JArr recs) = Inr None"
    by (rule find_date_range_none [OF well_typed_objs [OF wt] nd])
  with build_well_typed [where fs = fs and lib = lib and raw = raw, OF d l wt t]
  show ?thesis
    by (auto simp: Let_def)
qed

lemma four_filled_keeps:
  assumes "sublist ''PLACEHOLDER_DATE_RANGE'' template"
  shows "sublist ''PLACEHOLDER_DATE_RANGE'' (four_filled template data n tc sc)"
  unfolding four_filled_def
  by (intro replace_keeps tokens_apart assms)

lemma video_plain_typed: "list_all well_typed [video_plain]"
  by (simp add: well_typed_def valid_record_def shaped_def lacks_required_def missing_def
        has_def field_or_def sutta_refs_def other_refs_def related_videos_def video_plain_def)

lemma video_plain_counts:
  "date_fields [video_plain] = []" "topic_count [video_plain] = 2" "sutta_count [video_plain] = 0"
  by (simp_all add: date_fields_def topic_count_def sutta_count_def topic_strings_def
        sutta_ids_def sutta_refs_def field_or_def video_plain_def)

lemma folder_files:
  "folder template data_path = Some ''[]''" "folder template template_path = Some template"
  by (simp_all add: folder_def data_path_def template_path_def)

subsection \<open>No record has a date\<close>

text \<open>
  C2. When the records are well typed, none of them has a non-empty date and the template
  contains \<^verbatim>\<open>PLACEHOLDER_DATE_RANGE\<close>, the page written to \<^verbatim>\<open>index.html\<close> is the
  template with the other four tokens replaced as usual, and it still contains
  \<^verbatim>\<open>PLACEHOLDER_DATE_RANGE\<close>.
\<close>

theorem no_dates_token_left:
  assumes "fs data_path = Some raw"
    and "json_load lib raw = Inr (JArr recs)"
    and "list_all well_typed recs"
    and "fs template_path = Some template"
    and "date_fields recs = []"
    and "sublist ''PLACEHOLDER_DATE_RANGE'' template"
  shows "\<exists>cs page. compact (JArr recs) = Inr cs
           \<and> page = four_filled template (dumps (JArr cs)) (length recs)
                      (topic_count recs) (sutta_count recs)
           \<and> files (build lib fs) output_path = Some page
           \<and> sublist ''PLACEHOLDER_DATE_RANGE'' page"
proof -
  from build_no_dates [where fs = fs and lib = lib and raw = raw, OF assms(1-5)]
  obtain cs where
    "compact (JArr recs) = Inr cs"
    "files (build lib fs) output_path =
       Some (four_filled template (dumps (JArr cs)) (length recs)
              (topic_count recs) (sutta_count recs))"
    by auto
  with four_filled_keeps [OF assms(6)] show ?thesis by blast
qed

theorem no_dates_token_left_witness:
  "folder ''PLACEHOLDER_VIDEO_COUNT videos, PLACEHOLDER_DATE_RANGE'' data_path = Some ''[]''
   \<and> json_load (reads_as (JArr [video_plain])) ''[]'' = Inr (JArr [video_plain])
   \<and> list_all well_typed [video_plain]
   \<and> date_fields [video_plain] = []
   \<and> sublist ''PLACEHOLDER_DATE_RANGE'' ''PLACEHOLDER_VIDEO_COUNT videos, PLACEHOLDER_DATE_RANGE''
   \<and> files (build (reads_as (JArr [video_plain]))
        (folder ''PLACEHOLDER_VIDEO_COUNT videos, PLACEHOLDER_DATE_RANGE'')) output_path
     = Some ''1 videos, PLACEHOLDER_DATE_RANGE''"
proof -
  let ?t = "''PLACEHOLDER_VIDEO_COUNT videos, PLACEHOLDER_DATE_RANGE''"
  have r: "json_load (reads_as (JArr [video_plain])) ''[]'' = Inr (JArr [video_plain])"
    by (simp add: reads_as_def)
  have "?t = ''PLACEHOLDER_VIDEO_COUNT videos, '' @ ''PLACEHOLDER_DATE_RANGE'' @ []" by simp
  then have sub: "sublist ''PLACEHOLDER_DATE_RANGE'' ?t" unfolding sublist_def by blast
  have page: "four_filled ?t x (Suc 0) 2 0 = ''1 videos, PLACEHOLDER_DATE_RANGE''" for x
    by (simp add: four_filled_def replace.simps str_of_nat.simps digit_char_def)
  from no_dates_token_left [where fs = "folder ?t" and lib = "reads_as (JArr [video_plain])"
      and raw = "''[]''" and recs = "[video_plain]" and template = ?t,
      OF folder_files(1) r video_plain_typed folder_files(2) video_plain_counts(1) sub]
  have out: "files (build (reads_as (JArr [video_plain])) (folder ?t)) output_path
        = Some ''1 videos, PLACEHOLDER_DATE_RANGE''"
    by (auto simp: video_plain_counts page)
  show ?thesis
    by (intro conjI) (rule folder_files r video_plain_typed video_plain_counts sub out)+
qed

text \<open>
  C3. When the records are well typed and none of them has a non-empty date, the run
  writes the whole page to \<^verbatim>\<open>index.html\<close>, prints the statistics and then stops at
  the date range report with an uncaught \<^verbatim>\<open>NameError\<close> for \<^verbatim>\<open>earliest\<close>, which was
  never bound: the exit status is not zero although the page was produced in full.
\<close>

theorem no_dates_name_error:
  assumes "fs data_path = Some raw"
    and "json_load lib raw = Inr (JArr recs)"
    and "list_all well_typed recs"
    and "fs template_path = Some template"
    and "date_fields recs = []"
  shows "\<exists>cs. compact (JArr recs) = Inr cs
           \<and> files (build lib fs) =
               fs(output_path \<mapsto> four_filled template (dumps (JArr cs)) (length recs)
                                     (topic_count recs) (sutta_count recs))
           \<and> last (console (build lib fs)) =
               Stats (length recs) (topic_count recs) (sutta_count recs)
           \<and> status (build lib fs) = Uncaught (NameError ''earliest'')
           \<and> exit_code (status (build lib fs)) \<noteq> 0"
proof -
  from build_no_dates [where fs = fs and lib = lib and raw = raw, OF assms]
  obtain cs where cs: "compact (JArr recs) = Inr cs"
    and b: "build lib fs =
       \<lparr>files = fs(output_path \<mapsto> four_filled template (dumps (JArr cs)) (length recs)
                     (topic_count recs) (sutta_count recs)),
        console = [Building, Blank, Loaded (length recs),
                   Compacted (py_str_len (dumps (JArr cs)) div 1024), TemplateLoaded,
                   Created (py_str_len (four_filled template (dumps (JArr cs)) (length recs)
                     (topic_count recs) (sutta_count recs)) div 1024),
                   Blank, Stats (length recs) (topic_count recs) (sutta_count recs)],
        status = Uncaught (NameError ''earliest'')\<rparr>"
    by blast
  show ?thesis
    by (rule exI [of _ cs]) (simp add: cs b)
qed

theorem no_dates_name_error_witness:
  "folder ''PLACEHOLDER_TOPIC_COUNT topics'' data_path = Some ''[]''
   \<and> json_load (reads_as (JArr [video_plain])) ''[]'' = Inr (JArr [video_plain])
   \<and> list_all well_typed [video_plain]
   \<and> date_fields [video_plain] = []
   \<and> files (build (reads_as (JArr [video_plain])) (folder ''PLACEHOLDER_TOPIC_COUNT topics''))
       = (folder ''PLACEHOLDER_TOPIC_COUNT topics'')(output_path \<mapsto> ''2 topics'')
   \<and> status (build (reads_as (JArr [video_plain])) (folder ''PLACEHOLDER_TOPIC_COUNT topics''))
       = Uncaught (NameError ''earliest'')"
proof -
  let ?t = "''PLACEHOLDER_TOPIC_COUNT topics''"
  have r: "json_load (reads_as (JArr [video_plain])) ''[]'' = Inr (JArr [video_plain])"
    by (simp add: reads_as_def)
  have page: "four_filled ?t x (Suc 0) 2 0 = ''2 topics''" for x
    by (simp add: four_filled_def replace.simps str_of_nat.simps digit_char_def)
  from no_dates_name_error [where fs = "folder ?t" and lib = "reads_as (JArr [video_plain])"
      and raw = "''[]''" and recs = "[video_plain]" and template = ?t,
      OF folder_files(1) r video_plain_typed folder_files(2) video_plain_counts(1)]
  have out: "files (build (reads_as (JArr [video_plain])) (folder ?t))
               = (folder ?t)(output_path \<mapsto> ''2 topics'')"
    and st: "status (build (reads_as (JArr [video_plain])) (folder ?t))
               = Uncaught (NameError ''earliest'')"
    by (auto simp: video_plain_counts page)
  show ?thesis
    by (intro conjI) (rule folder_files r video_plain_typed video_plain_counts out st)+
qed

subsection \<open>The topic count\<close>

lemma two_videos_typed: "list_all well_typed [video_full, video_plain]"
  by (simp add: well_typed_def valid_record_def shaped_def lacks_required_def missing_def
        has_def field_or_def sutta_refs_def other_refs_def related_videos_def
        video_full_def video_plain_def ref_null_def)

lemma two_videos_topics:
  "concat (map topic_strings [video_full, video_plain])
     = [''views'', ''path'', ''views'', ''path'', ''karma'']"
  by (simp add: topic_strings_def field_or_def video_full_def video_plain_def)

lemma two_videos_dates:
  "find_date_range lib (JArr [video_full, video_plain]) = Inr (Some (''March 2021'', ''March 2021''))"
proof -
  have "date_fields [video_full, video_plain] = [JStr ''2021-03-05'']"
    by (simp add: date_fields_def field_or_def video_full_def video_plain_def)
  moreover have "strptime lib ''2021-03-05'' = Inr (2021, 3, 5)"
    by (simp add: strptime_def take_year_def is_cont_def is_digit_def nonzero_digit_def digit_val_def days_in_month_def is_leap_def)
  moreover have "strftime lib (2021, 3, 5) = ''March 2021''"
    by (simp add: strftime_def month_name_def str_of_nat.simps digit_char_def)
  ultimately show ?thesis
    using find_date_range_strings [OF well_typed_objs [OF two_videos_typed]] by simp
qed

text \<open>
  C6. For well-typed records the set of topics the script builds has as many members as
  there are distinct topic strings in the \<open>topics\<close> fields of all records, and the decimal
  numeral of that number is what replaces \<^verbatim>\<open>PLACEHOLDER_TOPIC_COUNT\<close> in the page that is
  written (when the date range step does not fail).
\<close>

theorem topic_count_substituted:
  assumes "fs data_path = Some raw"
    and "json_load lib raw = Inr (JArr recs)"
    and "list_all well_typed recs"
    and "fs template_path = Some template"
    and "find_date_range lib (JArr recs) = Inr r"
  shows "\<exists>T S cs. count_stats (JArr recs) = Inr (T, S)
           \<and> card T = card (set (concat (map topic_strings recs)))
           \<and> compact (JArr recs) = Inr cs
           \<and> files (build lib fs) output_path =
               Some (let page =
                       replace (replace (replace (replace template
                         ''PLACEHOLDER_DATA'' (dumps (JArr cs)))
                         ''PLACEHOLDER_VIDEO_COUNT'' (str_of_nat (length recs)))
                         ''PLACEHOLDER_TOPIC_COUNT''
                           (str_of_nat (card (set (concat (map topic_strings recs))))))
                         ''PLACEHOLDER_SUTTA_COUNT'' (str_of_nat (card S))
                     in case r of
                          None \<Rightarrow> page
                        | Some (earliest, latest) \<Rightarrow>
                            replace page ''PLACEHOLDER_DATE_RANGE'' (earliest @ dash @ latest))"
proof -
  from count_stats_well_typed [OF assms(3)] obtain T S where
    st: "count_stats (JArr recs) = Inr (T, S)" "card T = topic_count recs"
        "card S = sutta_count recs" by blast
  from build_well_typed [where fs = fs and lib = lib and raw = raw, OF assms(1-4)]
  obtain cs where cs: "compact (JArr recs) = Inr cs"
    and b: "files (build lib fs) output_path =
              Some (let page = four_filled template (dumps (JArr cs)) (length recs)
                                 (topic_count recs) (sutta_count recs)
                    in case r of
                         None \<Rightarrow> page
                       | Some (earliest, latest) \<Rightarrow>
                           replace page ''PLACEHOLDER_DATE_RANGE'' (earliest @ dash @ latest))"
    using assms(5) by (cases r) (auto simp: Let_def)
  have "card T = card (set (concat (map topic_strings recs)))"
    using st(2) by (simp add: topic_count_def)
  moreover from b have "files (build lib fs) output_path =
               Some (let page =
                       replace (replace (replace (replace template
                         ''PLACEHOLDER_DATA'' (dumps (JArr cs)))
                         ''PLACEHOLDER_VIDEO_COUNT'' (str_of_nat (length recs)))
                         ''PLACEHOLDER_TOPIC_COUNT''
                           (str_of_nat (card (set (concat (map topic_strings recs))))))
                         ''PLACEHOLDER_SUTTA_COUNT'' (str_of_nat (card S))
                     in case r of
                          None \<Rightarrow> page
                        | Some (earliest, latest) \<Rightarrow>
                            replace page ''PLACEHOLDER_DATE_RANGE'' (earliest @ dash @ latest))"
    by (simp add: four_filled_def topic_count_def st(3))
  ultimately show ?thesis using st(1) cs by blast
qed

theorem topic_count_substituted_witness:
  "folder ''PLACEHOLDER_TOPIC_COUNT topics'' data_path = Some ''[]''
   \<and> json_load (reads_as (JArr [video_full, video_plain])) ''[]'' = Inr (JArr [video_full, video_plain])
   \<and> list_all well_typed [video_full, video_plain]
   \<and> card (set (concat (map topic_strings [video_full, video_plain]))) = 3
   \<and> files (build (reads_as (JArr [video_full, video_plain]))
        (folder ''PLACEHOLDER_TOPIC_COUNT topics'')) output_path = Some ''3 topics''"
proof -
  let ?t = "''PLACEHOLDER_TOPIC_COUNT topics''"
  let ?recs = "[video_full, video_plain]"
  have r: "json_load (reads_as (JArr ?recs)) ''[]'' = Inr (JArr ?recs)"
    by (simp add: reads_as_def)
  have three: "card (set (concat (map topic_strings ?recs))) = 3"
    unfolding two_videos_topics List.card_set by simp
  have page: "replace (replace (replace (replace ?t ''PLACEHOLDER_DATA'' x)
                ''PLACEHOLDER_VIDEO_COUNT'' y) ''PLACEHOLDER_TOPIC_COUNT'' (str_of_nat 3))
                ''PLACEHOLDER_SUTTA_COUNT'' z = ''3 topics''" for x y z
    by (simp add: replace.simps str_of_nat.simps digit_char_def)
  have final: "replace ''3 topics'' ''PLACEHOLDER_DATE_RANGE'' x = ''3 topics''" for x
    by (simp add: replace.simps)
  from topic_count_substituted [where fs = "folder ?t"
      and lib = "reads_as (JArr ?recs)" and raw = "''[]''" and recs = ?recs
      and template = ?t, OF folder_files(1) r two_videos_typed folder_files(2) two_videos_dates]
  have out: "files (build (reads_as (JArr ?recs)) (folder ?t)) output_path = Some ''3 topics''"
    unfolding three Let_def page by (auto simp: final)
  show ?thesis
    by (intro conjI) (rule folder_files r two_videos_typed three out)+
qed

subsection \<open>The date range\<close>

lemma video_dated_obj: "is_obj (video_dated d)"
  by (simp add: video_dated_def)

lemma video_dated_field: "field_or (video_dated d) ''date'' JNull = JStr d"
  by (simp add: video_dated_def field_or_def)

lemma spec_dates:
  "date_fields [video_dated ''2021-03-05'', video_dated ''2019-11-02'', video_dated ''2020-01-01'']
     = [JStr ''2021-03-05'', JStr ''2019-11-02'', JStr ''2020-01-01'']"
  by (simp add: date_fields_def video_dated_field)

lemma spec_parsed:
  "strptime lib ''2019-11-02'' = Inr (2019, 11, 2)"
  "strptime lib ''2021-03-05'' = Inr (2021, 3, 5)"
  by (simp_all add: strptime_def take_year_def is_cont_def is_digit_def nonzero_digit_def
        digit_val_def days_in_month_def is_leap_def)

lemma strftime_four_digits:
  "1000 \<le> y \<Longrightarrow> strftime lib (y, m, d) = month_name m @ '' '' @ str_of_nat y"
  by (simp add: strftime_def)

lemma spec_rendered:
  "strftime lib (2019, 11, 2) = ''November 2019''" "strftime lib (2021, 3, 5) = ''March 2021''"
  by (simp_all add: strftime_four_digits month_name_def str_of_nat.simps digit_char_def)


text \<open>A year below 1000 is parsed from four digits; its rendering is the library's.\<close>

lemma year_below_1000:
  "strptime lib ''0999-01-01'' = Inr (999, 1, 1)"
  "strftime (lib\<lparr>pads_year := False\<rparr>) (999, 1, 1) = ''January 999''"
  "strftime (lib\<lparr>pads_year := True\<rparr>) (999, 1, 1) = ''January 0999''"
  by (simp_all add: strptime_def take_year_def is_cont_def is_digit_def nonzero_digit_def
        digit_val_def days_in_month_def is_leap_def strftime_def month_name_def
        str_of_nat.simps digit_char_def)

text \<open>
  C7. The date range is computed from the non-empty date values: they are sorted in
  ascending lexicographic order, the first and the last (the least and the greatest) are
  parsed, and each is rendered as month name and year; a year from 1000 on is rendered
  as its four digits by every library. For the dates 2021-03-05, 2019-11-02 and
  2020-01-01 the sorted list begins with 2019-11-02 and ends with 2021-03-05, and the
  range is November 2019 to March 2021.
\<close>

theorem date_range_first_last:
  "(list_all is_obj recs \<and> list_all is_str (date_fields recs) \<and> date_fields recs \<noteq> []
      \<and> strptime lib (hd (sort (map str_of (date_fields recs)))) = Inr earliest
      \<and> strptime lib (last (sort (map str_of (date_fields recs)))) = Inr latest
    \<longrightarrow> find_date_range lib (JArr recs) = Inr (Some (strftime lib earliest, strftime lib latest))
        \<and> hd (sort (map str_of (date_fields recs))) = Min (set (map str_of (date_fields recs)))
        \<and> last (sort (map str_of (date_fields recs))) = Max (set (map str_of (date_fields recs))))
   \<and> (1000 \<le> y \<longrightarrow> strftime lib (y, m, d) = month_name m @ '' '' @ str_of_nat y)
   \<and> sort (map str_of (date_fields
        [video_dated ''2021-03-05'', video_dated ''2019-11-02'', video_dated ''2020-01-01'']))
       = [''2019-11-02'', ''2020-01-01'', ''2021-03-05'']
   \<and> find_date_range lib
        (JArr [video_dated ''2021-03-05'', video_dated ''2019-11-02'', video_dated ''2020-01-01''])
       = Inr (Some (''November 2019'', ''March 2021''))"
proof (intro conjI impI)
  assume a: "list_all is_obj recs \<and> list_all is_str (date_fields recs) \<and> date_fields recs \<noteq> []
      \<and> strptime lib (hd (sort (map str_of (date_fields recs)))) = Inr earliest
      \<and> strptime lib (last (sort (map str_of (date_fields recs)))) = Inr latest"
  then have ne: "map str_of (date_fields recs) \<noteq> []" by simp
  from a show "find_date_range lib (JArr recs)
               = Inr (Some (strftime lib earliest, strftime lib latest))"
    by (simp add: find_date_range_strings)
  from ne show "hd (sort (map str_of (date_fields recs))) = Min (set (map str_of (date_fields recs)))"
    by (rule hd_sort_Min)
  from ne show "last (sort (map str_of (date_fields recs))) = Max (set (map str_of (date_fields recs)))"
    by (rule last_sort_Max)
next
  assume "1000 \<le> y"
  then show "strftime lib (y, m, d) = month_name m @ '' '' @ str_of_nat y"
    by (rule strftime_four_digits)
next
  show s: "sort (map str_of (date_fields
        [video_dated ''2021-03-05'', video_dated ''2019-11-02'', video_dated ''2020-01-01'']))
       = [''2019-11-02'', ''2020-01-01'', ''2021-03-05'']"
    unfolding spec_dates by simp
  have "list_all is_obj
          [video_dated ''2021-03-05'', video_dated ''2019-11-02'', video_dated ''2020-01-01'']"
    by (simp add: video_dated_obj)
  from find_date_range_strings [OF this, of lib] show "find_date_range lib
        (JArr [video_dated ''2021-03-05'', video_dated ''2019-11-02'', video_dated ''2020-01-01''])
       = Inr (Some (''November 2019'', ''March 2021''))"
    unfolding s by (simp add: spec_dates spec_parsed spec_rendered)
qed

theorem date_range_first_last_witness:
  "list_all is_obj [video_dated ''2021-03-05'', video_dated ''2019-11-02'']
   \<and> list_all is_str (date_fields [video_dated ''2021-03-05'', video_dated ''2019-11-02''])
   \<and> date_fields [video_dated ''2021-03-05'', video_dated ''2019-11-02''] \<noteq> []
   \<and> strptime (reads_as (JArr [])) (hd (sort (map str_of
        (date_fields [video_dated ''2021-03-05'', video_dated ''2019-11-02''])))) = Inr (2019, 11, 2)
   \<and> strptime (reads_as (JArr [])) (last (sort (map str_of
        (date_fields [video_dated ''2021-03-05'', video_dated ''2019-11-02''])))) = Inr (2021, 3, 5)
   \<and> (1000::nat) \<le> 2019
   \<and> find_date_range (reads_as (JArr []))
        (JArr [video_dated ''2021-03-05'', video_dated ''2019-11-02''])
       = Inr (Some (''November 2019'', ''March 2021''))
   \<and> strftime (reads_as (JArr [])) (2019, 11, 2) = month_name 11 @ '' '' @ str_of_nat 2019"
proof -
  let ?recs = "[video_dated ''2021-03-05'', video_dated ''2019-11-02'']"
  let ?lib = "reads_as (JArr [])"
  have df: "date_fields ?recs = [JStr ''2021-03-05'', JStr ''2019-11-02'']"
    by (simp add: date_fields_def video_dated_field)
  have so: "sort (map str_of (date_fields ?recs)) = [''2019-11-02'', ''2021-03-05'']"
    unfolding df by simp
  have h1: "list_all is_obj ?recs" by (simp add: video_dated_obj)
  have h2: "list_all is_str (date_fields ?recs)" unfolding df by simp
  have h3: "date_fields ?recs \<noteq> []" unfolding df by simp
  have h4: "strptime ?lib (hd (sort (map str_of (date_fields ?recs)))) = Inr (2019, 11, 2)"
    unfolding so by (simp add: spec_parsed)
  have h5: "strptime ?lib (last (sort (map str_of (date_fields ?recs)))) = Inr (2021, 3, 5)"
    unfolding so by (simp add: spec_parsed)
  have h6: "(1000::nat) \<le> 2019" by simp
  note t = date_range_first_last [where recs = ?recs and lib = ?lib
      and earliest = "(2019, 11, 2)" and latest = "(2021, 3, 5)"
      and y = 2019 and m = 11 and d = 2]
  from t h1 h2 h3 h4 h5
  have c1: "find_date_range ?lib (JArr ?recs) = Inr (Some (''November 2019'', ''March 2021''))"
    by (simp only: spec_rendered simp_thms)
  from t h6
  have c2: "strftime ?lib (2019, 11, 2) = month_name 11 @ '' '' @ str_of_nat 2019"
    by blast
  show ?thesis
    by (intro conjI) (rule h1 h2 h3 h4 h5 h6 c1 c2)+
qed

subsection \<open>A date that cannot be parsed\<close>

lemma not_parseable: "\<not> parseable lib s \<Longrightarrow> strptime lib s = Inl ValueError"
  using strptime_error [of lib s] by (cases "strptime lib s") (auto simp: parseable_def)

lemma parseable_parsed: "parseable lib s \<Longrightarrow> \<exists>d. strptime lib s = Inr d"
  by (cases "strptime lib s") (auto simp: parseable_def)

lemma video_dated_typed: "well_typed (video_dated d)"
  by (simp add: well_typed_def valid_record_def shaped_def lacks_required_def missing_def
        has_def field_or_def sutta_refs_def other_refs_def related_videos_def video_dated_def)

lemma bad_date: "\<not> parseable lib ''2020-99-99''"
  by (simp add: parseable_def strptime_def take_year_def is_cont_def is_digit_def
        nonzero_digit_def)

lemma january_parsed:
  "strptime lib ''2019-01-01'' = Inr (2019, 1, 1)" "strptime lib ''2021-01-01'' = Inr (2021, 1, 1)"
  by (simp_all add: strptime_def take_year_def is_cont_def is_digit_def nonzero_digit_def
        digit_val_def days_in_month_def is_leap_def)

lemma january_rendered:
  "strftime lib (2019, 1, 1) = ''January 2019''" "strftime lib (2021, 1, 1) = ''January 2021''"
  by (simp_all add: strftime_def month_name_def str_of_nat.simps digit_char_def)

text \<open>A year written in fullwidth digits is parsed by a library that knows them.\<close>

lemma wide_year_parsed:
  "strptime (lib\<lparr>unicode_digit := fullwidth_digit\<rparr>)
     ([CHR 0xEF, CHR 0xBC, CHR 0x92, CHR 0xEF, CHR 0xBC, CHR 0x90,
       CHR 0xEF, CHR 0xBC, CHR 0x92, CHR 0xEF, CHR 0xBC, CHR 0x90] @ ''-01-01'')
   = Inr (2020, 1, 1)"
  by (simp add: strptime_def take_year_def is_cont_def fullwidth_digit_def is_digit_def
        nonzero_digit_def digit_val_def days_in_month_def is_leap_def)

text \<open>
  C9, as the script behaves. Only the least and the greatest of the non-empty date strings
  are parsed. When the records are well typed and the non-empty dates are strings, the
  run ends with an uncaught \<^verbatim>\<open>ValueError\<close> before \<^verbatim>\<open>index.html\<close> is opened, every file as
  it was, if the least or the greatest of them is not a date; and if both are dates the
  run writes the page with the range of these two and exits with code 0, whatever the
  other date strings are.
\<close>

theorem unparseable_extreme_date_aborts:
  assumes "fs data_path = Some raw"
    and "json_load lib raw = Inr (JArr recs)"
    and "list_all well_typed recs"
    and "fs template_path = Some template"
    and "list_all is_str (date_fields recs)"
    and "date_fields recs \<noteq> []"
  shows "(\<not> parseable lib (Min (set (map str_of (date_fields recs))))
          \<or> \<not> parseable lib (Max (set (map str_of (date_fields recs))))
          \<longrightarrow> status (build lib fs) = Uncaught ValueError \<and> files (build lib fs) = fs)
       \<and> (parseable lib (Min (set (map str_of (date_fields recs))))
          \<and> parseable lib (Max (set (map str_of (date_fields recs))))
          \<longrightarrow> status (build lib fs) = Exit 0
              \<and> (\<exists>cs earliest latest.
                    compact (JArr recs) = Inr cs
                    \<and> strptime lib (Min (set (map str_of (date_fields recs)))) = Inr earliest
                    \<and> strptime lib (Max (set (map str_of (date_fields recs)))) = Inr latest
                    \<and> files (build lib fs) =
                        fs(output_path \<mapsto>
                           replace (four_filled template (dumps (JArr cs)) (length recs)
                                      (topic_count recs) (sutta_count recs))
                             ''PLACEHOLDER_DATE_RANGE''
                             (strftime lib earliest @ dash @ strftime lib latest))))"
proof (intro conjI impI)
  let ?lo = "Min (set (map str_of (date_fields recs)))"
  let ?hi = "Max (set (map str_of (date_fields recs)))"
  from assms(6) have ne: "map str_of (date_fields recs) \<noteq> []" by simp
  have range: "find_date_range lib (JArr recs) =
           and_then (strptime lib ?lo) (\<lambda>e.
           and_then (strptime lib ?hi) (\<lambda>l. Inr (Some (strftime lib e, strftime lib l))))"
    using find_date_range_strings [OF well_typed_objs [OF assms(3)] assms(5,6)]
    by (simp add: hd_sort_Min [OF ne] last_sort_Max [OF ne])
  from build_well_typed [where fs = fs and lib = lib and raw = raw, OF assms(1-4)]
  obtain cs where cs: "compact (JArr recs) = Inr cs"
    and b: "build lib fs =
       (let page = four_filled template (dumps (JArr cs)) (length recs)
                     (topic_count recs) (sutta_count recs);
            out3 = [Building, Blank, Loaded (length recs),
                    Compacted (py_str_len (dumps (JArr cs)) div 1024), TemplateLoaded];
            report = [Blank, Stats (length recs) (topic_count recs) (sutta_count recs)]
        in case find_date_range lib (JArr recs) of
             Inl e \<Rightarrow> \<lparr>files = fs, console = out3, status = Uncaught e\<rparr>
           | Inr None \<Rightarrow>
               \<lparr>files = fs(output_path \<mapsto> page),
                console = out3 @ [Created (py_str_len page div 1024)] @ report,
                status = Uncaught (NameError ''earliest'')\<rparr>
           | Inr (Some (earliest, latest)) \<Rightarrow>
               \<lparr>files = fs(output_path \<mapsto>
                  replace page ''PLACEHOLDER_DATE_RANGE'' (earliest @ dash @ latest)),
                console = out3 @ [Created (py_str_len
                    (replace page ''PLACEHOLDER_DATE_RANGE'' (earliest @ dash @ latest)) div 1024)]
                  @ report @ [DateRange earliest latest, Blank, Done],
                status = Exit 0\<rparr>)"
    by blast
  {
    assume bad: "\<not> parseable lib ?lo \<or> \<not> parseable lib ?hi"
    have "find_date_range lib (JArr recs) = Inl ValueError"
    proof (cases "parseable lib ?lo")
      case False
      then show ?thesis by (simp add: range not_parseable)
    next
      case True
      with bad have "strptime lib ?hi = Inl ValueError" by (simp add: not_parseable)
      moreover from parseable_parsed [OF True] obtain e where "strptime lib ?lo = Inr e" ..
      ultimately show ?thesis by (simp add: range)
    qed
    with b show "status (build lib fs) = Uncaught ValueError" and "files (build lib fs) = fs"
      by (simp_all add: Let_def)
  }
  {
    assume good: "parseable lib ?lo \<and> parseable lib ?hi"
    then obtain e l where e: "strptime lib ?lo = Inr e" and l: "strptime lib ?hi = Inr l"
      using parseable_parsed by blast
    then have "find_date_range lib (JArr recs) = Inr (Some (strftime lib e, strftime lib l))"
      by (simp add: range)
    with b have st: "status (build lib fs) = Exit 0"
      and fl: "files (build lib fs) =
                 fs(output_path \<mapsto>
                    replace (four_filled template (dumps (JArr cs)) (length recs)
                               (topic_count recs) (sutta_count recs))
                      ''PLACEHOLDER_DATE_RANGE'' (strftime lib e @ dash @ strftime lib l))"
      by (simp_all add: Let_def)
    from st show "status (build lib fs) = Exit 0" .
    from cs e l fl show "\<exists>cs earliest latest.
                    compact (JArr recs) = Inr cs
                    \<and> strptime lib ?lo = Inr earliest
                    \<and> strptime lib ?hi = Inr latest
                    \<and> files (build lib fs) =
                        fs(output_path \<mapsto>
                           replace (four_filled template (dumps (JArr cs)) (length recs)
                                      (topic_count recs) (sutta_count recs))
                             ''PLACEHOLDER_DATE_RANGE''
                             (strftime lib earliest @ dash @ strftime lib latest))"
      by blast
  }
qed

theorem unparseable_extreme_date_aborts_witness:
  "folder ''PLACEHOLDER_DATE_RANGE'' data_path = Some ''[]''
   \<and> json_load (reads_as (JArr [video_dated ''2019-01-01'', video_dated ''2020-99-99''])) ''[]''
       = Inr (JArr [video_dated ''2019-01-01'', video_dated ''2020-99-99''])
   \<and> list_all well_typed [video_dated ''2019-01-01'', video_dated ''2020-99-99'']
   \<and> list_all is_str (date_fields [video_dated ''2019-01-01'', video_dated ''2020-99-99''])
   \<and> date_fields [video_dated ''2019-01-01'', video_dated ''2020-99-99''] \<noteq> []
   \<and> \<not> parseable (reads_as (JArr [video_dated ''2019-01-01'', video_dated ''2020-99-99'']))
         (Max (set (map str_of
            (date_fields [video_dated ''2019-01-01'', video_dated ''2020-99-99'']))))
   \<and> status (build (reads_as (JArr [video_dated ''2019-01-01'', video_dated ''2020-99-99'']))
        (folder ''PLACEHOLDER_DATE_RANGE'')) = Uncaught ValueError
   \<and> files (build (reads_as (JArr [video_dated ''2019-01-01'', video_dated ''2020-99-99'']))
        (folder ''PLACEHOLDER_DATE_RANGE'')) = folder ''PLACEHOLDER_DATE_RANGE''
   \<and> json_load (reads_as (JArr [video_dated ''2021-01-01'', video_dated ''2019-01-01''])) ''[]''
       = Inr (JArr [video_dated ''2021-01-01'', video_dated ''2019-01-01''])
   \<and> list_all well_typed [video_dated ''2021-01-01'', video_dated ''2019-01-01'']
   \<and> list_all is_str (date_fields [video_dated ''2021-01-01'', video_dated ''2019-01-01''])
   \<and> date_fields [video_dated ''2021-01-01'', video_dated ''2019-01-01''] \<noteq> []
   \<and> parseable (reads_as (JArr [video_dated ''2021-01-01'', video_dated ''2019-01-01'']))
         (Min (set (map str_of
            (date_fields [video_dated ''2021-01-01'', video_dated ''2019-01-01'']))))
   \<and> parseable (reads_as (JArr [video_dated ''2021-01-01'', video_dated ''2019-01-01'']))
         (Max (set (map str_of
            (date_fields [video_dated ''2021-01-01'', video_dated ''2019-01-01'']))))
   \<and> status (build (reads_as (JArr [video_dated ''2021-01-01'', video_dated ''2019-01-01'']))
        (folder ''PLACEHOLDER_DATE_RANGE'')) = Exit 0
   \<and> files (build (reads_as (JArr [video_dated ''2021-01-01'', video_dated ''2019-01-01'']))
        (folder ''PLACEHOLDER_DATE_RANGE'')) output_path
       = Some (''January 2019'' @ dash @ ''January 2021'')"
proof -
  let ?t = "''PLACEHOLDER_DATE_RANGE''"
  let ?bad = "[video_dated ''2019-01-01'', video_dated ''2020-99-99'']"
  let ?good = "[video_dated ''2021-01-01'', video_dated ''2019-01-01'']"
  have r1: "json_load (reads_as (JArr ?bad)) ''[]'' = Inr (JArr ?bad)"
    and r2: "json_load (reads_as (JArr ?good)) ''[]'' = Inr (JArr ?good)"
    by (simp_all add: reads_as_def)
  have wt1: "list_all well_typed ?bad" and wt2: "list_all well_typed ?good"
    by (simp_all add: video_dated_typed)
  have df1: "date_fields ?bad = [JStr ''2019-01-01'', JStr ''2020-99-99'']"
    and df2: "date_fields ?good = [JStr ''2021-01-01'', JStr ''2019-01-01'']"
    by (simp_all add: date_fields_def video_dated_def field_or_def)
  have strs1: "list_all is_str (date_fields ?bad)" and ne1: "date_fields ?bad \<noteq> []"
    unfolding df1 by simp_all
  have strs2: "list_all is_str (date_fields ?good)" and ne2: "date_fields ?good \<noteq> []"
    unfolding df2 by simp_all
  have mx1: "Max (set (map str_of (date_fields ?bad))) = ''2020-99-99''"
    unfolding df1 by simp
  have mn2: "Min (set (map str_of (date_fields ?good))) = ''2019-01-01''"
    and mx2: "Max (set (map str_of (date_fields ?good))) = ''2021-01-01''"
    unfolding df2 by simp_all
  have bad: "\<not> parseable (reads_as (JArr ?bad)) (Max (set (map str_of (date_fields ?bad))))"
    unfolding mx1 by (rule bad_date)
  have lo: "parseable (reads_as (JArr ?good)) (Min (set (map str_of (date_fields ?good))))"
    and hi: "parseable (reads_as (JArr ?good)) (Max (set (map str_of (date_fields ?good))))"
    unfolding mn2 mx2 by (simp_all add: parseable_def january_parsed)
  note t1 = unparseable_extreme_date_aborts [where fs = "folder ?t"
      and lib = "reads_as (JArr ?bad)" and raw = "''[]''" and recs = ?bad
      and template = ?t, OF folder_files(1) r1 wt1 folder_files(2) strs1 ne1]
  note t2 = unparseable_extreme_date_aborts [where fs = "folder ?t"
      and lib = "reads_as (JArr ?good)" and raw = "''[]''" and recs = ?good
      and template = ?t, OF folder_files(1) r2 wt2 folder_files(2) strs2 ne2]
  note a1 = t1 [THEN conjunct1, THEN mp, OF disjI2 [OF bad]]
  note a2 = t2 [THEN conjunct2, THEN mp, OF conjI [OF lo hi]]
  have st1: "status (build (reads_as (JArr ?bad)) (folder ?t)) = Uncaught ValueError"
    and fl1: "files (build (reads_as (JArr ?bad)) (folder ?t)) = folder ?t"
    using a1 by (rule conjunct1, rule conjunct2)
  have st2: "status (build (reads_as (JArr ?good)) (folder ?t)) = Exit 0"
    using a2 by (rule conjunct1)
  from a2 [THEN conjunct2] obtain cs e l where
    e: "strptime (reads_as (JArr ?good)) (Min (set (map str_of (date_fields ?good)))) = Inr e"
    and l: "strptime (reads_as (JArr ?good)) (Max (set (map str_of (date_fields ?good)))) = Inr l"
    and f: "files (build (reads_as (JArr ?good)) (folder ?t)) =
              (folder ?t)(output_path \<mapsto>
                 replace (four_filled ?t (dumps (JArr cs)) (length ?good)
                            (topic_count ?good) (sutta_count ?good))
                   ''PLACEHOLDER_DATE_RANGE''
                   (strftime (reads_as (JArr ?good)) e @ dash
                    @ strftime (reads_as (JArr ?good)) l))"
    by (elim exE conjE)
  have page: "four_filled ?t x y z w = ?t" for x y z w
    by (simp add: four_filled_def replace.simps)
  have fin: "replace ?t ''PLACEHOLDER_DATE_RANGE'' x = x" for x
    by (simp add: replace.simps)
  from e have e': "e = (2019, 1, 1)" unfolding mn2 january_parsed by simp
  from l have l': "l = (2021, 1, 1)" unfolding mx2 january_parsed by simp
  have fl2: "files (build (reads_as (JArr ?good)) (folder ?t)) output_path
             = Some (''January 2019'' @ dash @ ''January 2021'')"
    unfolding f e' l' page fin january_rendered by simp
  show ?thesis
    by (intro conjI)
       (rule folder_files r1 wt1 strs1 ne1 bad st1 fl1 r2 wt2 strs2 ne2 lo hi st2 fl2)+
qed


text \<open>
  C9, as stated, speaks of any record with an unparseable date. A date that is neither
  the least nor the greatest is never parsed: with 2020-99-99 between two good dates the
  run succeeds and writes the page.
\<close>

theorem unparseable_middle_date_ignored:
  "\<not> parseable
       (reads_as (JArr [video_dated ''2019-01-01'', video_dated ''2020-99-99'',
                        video_dated ''2021-01-01'']))
       ''2020-99-99''
   \<and> status (build
        (reads_as (JArr [video_dated ''2019-01-01'', video_dated ''2020-99-99'',
                         video_dated ''2021-01-01'']))
        (folder ''PLACEHOLDER_DATE_RANGE'')) = Exit 0
   \<and> files (build
        (reads_as (JArr [video_dated ''2019-01-01'', video_dated ''2020-99-99'',
                         video_dated ''2021-01-01'']))
        (folder ''PLACEHOLDER_DATE_RANGE'')) output_path
      = Some (''January 2019'' @ dash @ ''January 2021'')"
proof -
  let ?recs = "[video_dated ''2019-01-01'', video_dated ''2020-99-99'', video_dated ''2021-01-01'']"
  let ?t = "''PLACEHOLDER_DATE_RANGE''"
  let ?lib = "reads_as (JArr ?recs)"
  have r: "json_load ?lib ''[]'' = Inr (JArr ?recs)" by (simp add: reads_as_def)
  have wt: "list_all well_typed ?recs" by (simp add: video_dated_typed)
  have df: "date_fields ?recs = [JStr ''2019-01-01'', JStr ''2020-99-99'', JStr ''2021-01-01'']"
    by (simp add: date_fields_def video_dated_def field_or_def)
  have so: "sort (map str_of (date_fields ?recs)) = [''2019-01-01'', ''2020-99-99'', ''2021-01-01'']"
    unfolding df by simp
  have strs: "list_all is_str (date_fields ?recs)" and ne: "date_fields ?recs \<noteq> []"
    unfolding df by simp_all
  have ends: "hd (sort (map str_of (date_fields ?recs))) = ''2019-01-01''"
    "last (sort (map str_of (date_fields ?recs))) = ''2021-01-01''"
    unfolding so by simp_all
  have dr: "find_date_range ?lib (JArr ?recs) = Inr (Some (''January 2019'', ''January 2021''))"
    unfolding find_date_range_strings [OF well_typed_objs [OF wt] strs ne] ends january_parsed
    by (simp add: january_rendered [simplified])
  have page: "four_filled ?t x y z w = ?t" for x y z w
    by (simp add: four_filled_def replace.simps)
  have fin: "replace ?t ''PLACEHOLDER_DATE_RANGE'' x = x" for x
    by (simp add: replace.simps)
  from build_well_typed [where fs = "folder ?t" and lib = ?lib
      and raw = "''[]''" and recs = ?recs and template = ?t,
      OF folder_files(1) r wt folder_files(2)]
  have "status (build ?lib (folder ?t)) = Exit 0"
    and "files (build ?lib (folder ?t)) output_path
         = Some (''January 2019'' @ dash @ ''January 2021'')"
    unfolding dr Let_def page fin by auto
  with bad_date [of ?lib] show ?thesis by blast
qed

subsection \<open>The page is a function of the two input files\<close>

lemma paths_differ: "output_path \<noteq> data_path" "output_path \<noteq> template_path"
  by (simp_all add: output_path_def data_path_def template_path_def)

lemma build_reads_two_files:
  assumes "fs1 data_path = fs2 data_path" and "fs1 template_path = fs2 template_path"
  shows "console (build lib fs1) = console (build lib fs2)
         \<and> status (build lib fs1) = status (build lib fs2)
         \<and> ((files (build lib fs1) = fs1 \<and> files (build lib fs2) = fs2)
            \<or> (\<exists>page. files (build lib fs1) = fs1(output_path \<mapsto> page)
                     \<and> files (build lib fs2) = fs2(output_path \<mapsto> page)))"
  unfolding build_def Let_def assms
  by (auto split: option.split sum.split prod.split)

text \<open>
  C8. The run reads the directory only at the data file and at the template. Two
  directories that agree on these two files give the same messages and the same exit
  status, and either both are left as they were or the same page is written to
  \<^verbatim>\<open>index.html\<close> in both. In particular a second run on the directory left by the first
  changes nothing and ends in the same way.
\<close>

theorem build_is_function_of_inputs:
  "(fs1 data_path = fs2 data_path \<and> fs1 template_path = fs2 template_path \<longrightarrow>
      console (build lib fs1) = console (build lib fs2)
      \<and> status (build lib fs1) = status (build lib fs2)
      \<and> ((files (build lib fs1) = fs1 \<and> files (build lib fs2) = fs2)
         \<or> (\<exists>page. files (build lib fs1) = fs1(output_path \<mapsto> page)
                  \<and> files (build lib fs2) = fs2(output_path \<mapsto> page))))
   \<and> build lib (files (build lib fs)) = build lib fs"
proof (intro conjI impI)
  assume a: "fs1 data_path = fs2 data_path \<and> fs1 template_path = fs2 template_path"
  then show "console (build lib fs1) = console (build lib fs2)"
    and "status (build lib fs1) = status (build lib fs2)"
    and "(files (build lib fs1) = fs1 \<and> files (build lib fs2) = fs2)
         \<or> (\<exists>page. files (build lib fs1) = fs1(output_path \<mapsto> page)
                  \<and> files (build lib fs2) = fs2(output_path \<mapsto> page))"
    using build_reads_two_files [of fs1 fs2 lib] by simp_all
next
  let ?fs' = "files (build lib fs)"
  have same: "fs data_path = fs data_path" "fs template_path = fs template_path" by simp_all
  from build_reads_two_files [OF same, of lib]
  have own: "?fs' = fs \<or> (\<exists>page. ?fs' = fs(output_path \<mapsto> page))" by auto
  then have d: "fs data_path = ?fs' data_path" and t: "fs template_path = ?fs' template_path"
    using paths_differ by auto
  from build_reads_two_files [OF d t, of lib]
  have c: "console (build lib fs) = console (build lib ?fs')"
    and s: "status (build lib fs) = status (build lib ?fs')"
    and f: "(?fs' = fs \<and> files (build lib ?fs') = ?fs')
            \<or> (\<exists>page. ?fs' = fs(output_path \<mapsto> page)
                     \<and> files (build lib ?fs') = ?fs'(output_path \<mapsto> page))"
    by simp_all
  from f have "files (build lib ?fs') = ?fs'"
  proof
    assume "?fs' = fs \<and> files (build lib ?fs') = ?fs'"
    then show ?thesis by simp
  next
    assume "\<exists>page. ?fs' = fs(output_path \<mapsto> page)
                  \<and> files (build lib ?fs') = ?fs'(output_path \<mapsto> page)"
    then obtain page where p: "?fs' = fs(output_path \<mapsto> page)"
      and q: "files (build lib ?fs') = ?fs'(output_path \<mapsto> page)" by blast
    from p have "?fs'(output_path \<mapsto> page) = ?fs'" by (metis fun_upd_upd)
    with q show ?thesis by simp
  qed
  with c s show "build lib ?fs' = build lib fs"
    by (simp add: run.equality)
qed


theorem build_is_function_of_inputs_witness:
  "folder ''PLACEHOLDER_VIDEO_COUNT videos'' data_path
     = ((folder ''PLACEHOLDER_VIDEO_COUNT videos'')(output_path \<mapsto> ''old page'')) data_path
   \<and> folder ''PLACEHOLDER_VIDEO_COUNT videos'' template_path
     = ((folder ''PLACEHOLDER_VIDEO_COUNT videos'')(output_path \<mapsto> ''old page'')) template_path
   \<and> files (build (reads_as (JArr [video_plain])) (folder ''PLACEHOLDER_VIDEO_COUNT videos''))
       output_path
     = Some ''1 videos''
   \<and> files (build (reads_as (JArr [video_plain]))
        ((folder ''PLACEHOLDER_VIDEO_COUNT videos'')(output_path \<mapsto> ''old page''))) output_path
     = Some ''1 videos''
   \<and> status (build (reads_as (JArr [video_plain])) (folder ''PLACEHOLDER_VIDEO_COUNT videos''))
     = Uncaught (NameError ''earliest'')
   \<and> status (build (reads_as (JArr [video_plain]))
        ((folder ''PLACEHOLDER_VIDEO_COUNT videos'')(output_path \<mapsto> ''old page'')))
     = Uncaught (NameError ''earliest'')
   \<and> build (reads_as (JArr [video_plain]))
        (files (build (reads_as (JArr [video_plain]))
           (folder ''PLACEHOLDER_VIDEO_COUNT videos'')))
     = build (reads_as (JArr [video_plain])) (folder ''PLACEHOLDER_VIDEO_COUNT videos'')"
proof -
  let ?t = "''PLACEHOLDER_VIDEO_COUNT videos''"
  let ?fs1 = "folder ?t"
  let ?fs2 = "(folder ?t)(output_path \<mapsto> ''old page'')"
  let ?jl = "reads_as (JArr [video_plain])"
  have d: "?fs1 data_path = ?fs2 data_path" and t: "?fs1 template_path = ?fs2 template_path"
    using paths_differ by simp_all
  have r: "json_load ?jl ''[]'' = Inr (JArr [video_plain])" by (simp add: reads_as_def)
  have page: "four_filled ?t x (Suc 0) y z = ''1 videos''" for x y z
    by (simp add: four_filled_def replace.simps str_of_nat.simps digit_char_def)
  from build_no_dates [where fs = ?fs1 and lib = ?jl and raw = "''[]''"
      and recs = "[video_plain]" and template = ?t,
      OF folder_files(1) r video_plain_typed folder_files(2) video_plain_counts(1)]
  have e1: "files (build ?jl ?fs1) = ?fs1(output_path \<mapsto> ''1 videos'')"
    and s1: "status (build ?jl ?fs1) = Uncaught (NameError ''earliest'')"
    by (auto simp: page)
  from e1 have o1: "files (build ?jl ?fs1) output_path = Some ''1 videos''" by simp
  have none: "?fs1 output_path = None"
    by (simp add: folder_def output_path_def data_path_def template_path_def)
  note inst = build_is_function_of_inputs [where ?fs1.0 = ?fs1 and ?fs2.0 = ?fs2
      and lib = ?jl and fs = ?fs1]
  note agree = inst [THEN conjunct1, THEN mp, OF conjI [OF d t]]
  from agree have st: "status (build ?jl ?fs1) = status (build ?jl ?fs2)"
    by (rule conjunct2 [THEN conjunct1])
  from agree
  have alt: "(files (build ?jl ?fs1) = ?fs1 \<and> files (build ?jl ?fs2) = ?fs2)
              \<or> (\<exists>page. files (build ?jl ?fs1) = ?fs1(output_path \<mapsto> page)
                       \<and> files (build ?jl ?fs2) = ?fs2(output_path \<mapsto> page))"
    by (rule conjunct2 [THEN conjunct2])
  from st s1 have s2: "status (build ?jl ?fs2) = Uncaught (NameError ''earliest'')" by simp
  from alt have o2: "files (build ?jl ?fs2) output_path = Some ''1 videos''"
  proof
    assume "files (build ?jl ?fs1) = ?fs1 \<and> files (build ?jl ?fs2) = ?fs2"
    with o1 none show ?thesis by simp
  next
    assume "\<exists>page. files (build ?jl ?fs1) = ?fs1(output_path \<mapsto> page)
                  \<and> files (build ?jl ?fs2) = ?fs2(output_path \<mapsto> page)"
    then obtain page where p1: "files (build ?jl ?fs1) = ?fs1(output_path \<mapsto> page)"
      and p2: "files (build ?jl ?fs2) = ?fs2(output_path \<mapsto> page)" by blast
    from p1 o1 have "page = ''1 videos''" by simp
    with p2 show ?thesis by simp
  qed
  note again = inst [THEN conjunct2]
  show ?thesis
    by (intro conjI) (rule d t o1 o2 s1 s2 again)+
qed

end
